theory Spec2Isabelle
  imports Complex_Main
begin

section \<open>JavaScript strings and values used by app.js\<close>

text \<open>
  Strings are \<^typ>\<open>string\<close>. A JavaScript value that may be \<open>null\<close> or
  \<open>undefined\<close> is an \<^typ>\<open>'a option\<close> with \<^term>\<open>None\<close> for the missing
  value. A string is truthy when it is present and not empty.
\<close>

definition truthy :: "string option \<Rightarrow> bool" where
  "truthy v = (case v of None \<Rightarrow> False | Some s \<Rightarrow> s \<noteq> [])"

text \<open>\<open>line.startsWith(p)\<close>.\<close>

definition startsWith :: "string \<Rightarrow> string \<Rightarrow> bool" where
  "startsWith line p = (take (length p) line = p)"

text \<open>\<open>line.split(sep)\<close> for a one-character separator: the list of fields, never empty.\<close>

fun split :: "char \<Rightarrow> string \<Rightarrow> string list" where
  "split sep [] = [[]]"
| "split sep (c # cs) =
     (if c = sep then [] # split sep cs
      else (case split sep cs of
              [] \<Rightarrow> [[c]]
            | w # ws \<Rightarrow> (c # w) # ws))"

text \<open>\<open>xs[i]\<close>: \<open>undefined\<close> out of range.\<close>

definition index :: "'a list \<Rightarrow> nat \<Rightarrow> 'a option" where
  "index xs i = (if i < length xs then Some (xs ! i) else None)"

text \<open>\<open>s.substring(a, b)\<close> for \<open>0 \<le> a \<le> b\<close>: both ends are clamped to the length.\<close>

definition substring :: "nat \<Rightarrow> nat \<Rightarrow> string \<Rightarrow> string" where
  "substring a b s = take (b - a) (drop a s)"

section \<open>The Rules Engine (chess.js), taken as a parameter\<close>

text \<open>
  The chess library is not part of app.js. Its operations are the fields of a record over
  an abstract game type \<^typ>\<open>'g\<close>; a mutating method returns the new game. The argument
  of \<open>game.move\<close> is either an object \<open>{from, to, promotion}\<close> or a move string taken
  from \<open>game.moves()\<close>. \<open>move\<close> returns \<^term>\<open>None\<close> for \<open>null\<close> (the move was
  refused and the game is as before).
\<close>

datatype move_arg = MoveObj "string option" string string | MoveSan string

record piece =
  color :: string
  type :: string

record 'g rules =
  start :: "'g"
  reset :: "'g \<Rightarrow> 'g"
  undo :: "'g \<Rightarrow> 'g"
  move :: "move_arg \<Rightarrow> 'g \<Rightarrow> 'g option"
  moves :: "'g \<Rightarrow> string list"
  get :: "string \<Rightarrow> 'g \<Rightarrow> piece option"
  fen :: "'g \<Rightarrow> string"
  turn :: "'g \<Rightarrow> string"
  in_checkmate :: "'g \<Rightarrow> bool"
  in_draw :: "'g \<Rightarrow> bool"
  game_over :: "'g \<Rightarrow> bool"

text \<open>\<open>game.move(m)\<close> where the caller ignores what it returns.\<close>

definition applyMove :: "'g rules \<Rightarrow> move_arg \<Rightarrow> 'g \<Rightarrow> 'g" where
  "applyMove R m g = (case move R m g of Some g' \<Rightarrow> g' | None \<Rightarrow> g)"

section \<open>State\<close>

text \<open>
  What the program does to the browser is kept as a list of effects, oldest first; pending
  timers are kept with their delay in milliseconds. The poll of
  \<open>waitForStockfishModule\<close> is an interval whose closure counts its \<open>attempts\<close>.
\<close>

datatype effect =
    PostMessage string
  | Terminate
  | Ccall string
  | WindowOnMessage string
  | AddMessageListener
  | ConsoleLog string
  | ConsoleWarn string
  | ConsoleError string
  | Alert string
  | Throw string

datatype timer = WorkerTimeout | RandomMove | Poll nat

datatype handle = Worker

record engine_mgr =
  engine :: "handle option"
  isWorker :: bool
  isReady :: bool

record 'g chess_app =
  game :: "'g"
  playerColor :: string
  isThinking :: bool
  selectedSquare :: "string option"
  isDragging :: bool
  dragStartSquare :: "string option"
  engineMgr :: engine_mgr
  statusEl :: string
  engineStatusEl :: string
  levelSelect :: "string option"
  timers :: "(nat \<times> timer) list"
  effects :: "effect list"

text \<open>
  \<open>statusEl\<close> and \<open>engineStatusEl\<close> hold the \<open>innerText\<close> of the two elements.
  \<open>levelSelect\<close> holds the number \<open>parseInt(levelSelect.value)\<close>, as the text a
  template literal prints for it, and \<^term>\<open>None\<close> when that number is falsy (\<open>NaN\<close>
  or zero). The drawing of the board (\<open>renderBoard\<close>, the dragged visual) reads the
  state and writes only to the page, and is left out.
\<close>

text \<open>
  What the page provides at the moment of a call: whether \<open>new Worker\<close> succeeds, whether
  \<open>StockfishModule\<close> or \<open>Module\<close> is defined, whether \<open>StockfishModule\<close> is
  defined and has a \<open>ccall\<close>, and whether \<open>window.onmessage\<close> is a function.
\<close>

record env =
  worker_ok :: bool
  module_present :: bool
  has_ccall :: bool
  has_onmessage :: bool

definition emit :: "effect \<Rightarrow> 'g chess_app \<Rightarrow> 'g chess_app" where
  "emit e s = s\<lparr>effects := effects s @ [e]\<rparr>"

definition setTimer :: "nat \<Rightarrow> timer \<Rightarrow> 'g chess_app \<Rightarrow> 'g chess_app" where
  "setTimer ms t s = s\<lparr>timers := timers s @ [(ms, t)]\<rparr>"

definition clearTimer :: "nat \<Rightarrow> 'g chess_app \<Rightarrow> 'g chess_app" where
  "clearTimer i s = s\<lparr>timers := take i (timers s) @ drop (Suc i) (timers s)\<rparr>"

section \<open>EngineManager\<close>

text \<open>The three callbacks the ChessApp constructor passes to the EngineManager.\<close>

definition statusCallback :: "string \<Rightarrow> 'g chess_app \<Rightarrow> 'g chess_app" where
  "statusCallback status s = s\<lparr>engineStatusEl := status\<rparr>"

definition onReadyCallback :: "'g chess_app \<Rightarrow> 'g chess_app" where
  "onReadyCallback s = emit (ConsoleLog ''Engine Ready!'') s"

definition waitForStockfishModule :: "'g chess_app \<Rightarrow> 'g chess_app" where
  "waitForStockfishModule s = setTimer 500 (Poll 0) s"

definition switchToMainThread :: "'g chess_app \<Rightarrow> 'g chess_app" where
  "switchToMainThread s =
     (let s1 = (if isWorker (engineMgr s) \<and> engine (engineMgr s) \<noteq> None
                then emit Terminate (s\<lparr>engineMgr := (engineMgr s)\<lparr>engine := None\<rparr>\<rparr>)
                else s);
          s2 = s1\<lparr>engineMgr := (engineMgr s1)\<lparr>isWorker := False\<rparr>\<rparr>;
          s3 = statusCallback ''Loading Main Thread Engine...'' s2
      in waitForStockfishModule s3)"

text \<open>
  \<open>init\<close>: when \<open>new Worker\<close> throws, neither \<open>engine\<close> nor \<open>isWorker\<close> has been
  assigned and the catch block falls back at once.
\<close>

definition init :: "env \<Rightarrow> 'g chess_app \<Rightarrow> 'g chess_app" where
  "init ev s =
     (let s1 = statusCallback ''Initializing Engine...'' s in
      if worker_ok ev then
        (let s2 = s1\<lparr>engineMgr := (engineMgr s1)\<lparr>engine := Some Worker, isWorker := True\<rparr>\<rparr>;
             s3 = emit (PostMessage ''uci'') s2
         in setTimer 2000 WorkerTimeout s3)
      else switchToMainThread (emit (ConsoleWarn ''Worker creation failed instantly:'') s1))"

text \<open>The callback of the safety timeout armed by \<open>init\<close>.\<close>

definition workerTimeout :: "'g chess_app \<Rightarrow> 'g chess_app" where
  "workerTimeout s =
     (if \<not> isReady (engineMgr s) \<and> isWorker (engineMgr s)
      then switchToMainThread (emit (ConsoleWarn ''Worker timed out, switching to main thread.'') s)
      else s)"

text \<open>The \<open>onerror\<close> handler of the worker.\<close>

definition workerError :: "'g chess_app \<Rightarrow> 'g chess_app" where
  "workerError s =
     switchToMainThread (emit (ConsoleWarn ''Worker failed, falling back to main thread:'') s)"

text \<open>
  \<open>sendCommand\<close>. In worker mode with \<open>engine\<close> \<open>null\<close> the call
  \<open>this.engine.postMessage\<close> throws a TypeError, which is recorded as an effect. The
  exception would also end the calling handler; that is not modelled, since no run reaches
  such a state: \<open>isWorker\<close> is true exactly when \<open>engine\<close> holds the worker (lemma
  \<open>reachable_worker_engine\<close> below).
\<close>

definition sendCommand :: "env \<Rightarrow> string \<Rightarrow> 'g chess_app \<Rightarrow> 'g chess_app" where
  "sendCommand ev cmd s =
     (if \<not> isReady (engineMgr s) \<and> cmd \<noteq> ''uci'' then s
      else if isWorker (engineMgr s) then
        (case engine (engineMgr s) of
           Some Worker \<Rightarrow> emit (PostMessage cmd) s
         | None \<Rightarrow> emit (Throw ''TypeError'') s)
      else if has_ccall ev then emit (Ccall cmd) s
      else if has_onmessage ev then emit (WindowOnMessage cmd) s
      else emit (ConsoleWarn ''No valid input channel for Stockfish Main Thread!'') s)"

definition initMainThread :: "env \<Rightarrow> 'g chess_app \<Rightarrow> 'g chess_app" where
  "initMainThread ev s =
     sendCommand ev ''uci''
       (emit AddMessageListener (emit (ConsoleLog ''Initializing Main Thread Stockfish...'') s))"

definition alertText :: string where
  "alertText =
     ''Error: No se pudo cargar el motor de ajedrez (Stockfish). '' @
     ''Esto suele pasar en iOS si abres el archivo localmente debido a restricciones de seguridad. '' @
     ''Prueba a alojarlo en un servidor web.''"

text \<open>
  One tick of the interval of \<open>waitForStockfishModule\<close>; \<open>i\<close> is the position of the
  interval among the pending timers and \<open>attempts\<close> the count its closure holds.
\<close>

definition pollTick :: "env \<Rightarrow> nat \<Rightarrow> nat \<Rightarrow> 'g chess_app \<Rightarrow> 'g chess_app" where
  "pollTick ev i attempts s =
     (let attempts' = attempts + 1 in
      if module_present ev then initMainThread ev (clearTimer i s)
      else if attempts' > 20 then
        emit (Alert alertText)
          (emit (ConsoleError ''StockfishModule not found.'')
            (statusCallback ''Engine Load Failed (Random Moves Only)'' (clearTimer i s)))
      else s\<lparr>timers := (timers s)[i := (500, Poll attempts')]\<rparr>)"

section \<open>ChessApp\<close>

definition updateStatus :: "'g rules \<Rightarrow> 'g chess_app \<Rightarrow> 'g chess_app" where
  "updateStatus R s =
     (if in_checkmate R (game s)
      then s\<lparr>statusEl := (if turn R (game s) = ''w'' then ''Black Wins!'' else ''White Wins!'')\<rparr>
      else if in_draw R (game s) then s\<lparr>statusEl := ''Draw!''\<rparr>
      else s\<lparr>statusEl := (if turn R (game s) = ''w'' then ''Your Turn'' else ''AI Turn'')\<rparr>)"

definition newGame :: "'g rules \<Rightarrow> env \<Rightarrow> 'g chess_app \<Rightarrow> 'g chess_app" where
  "newGame R ev s =
     (if isThinking s then s
      else
        (let s1 = s\<lparr>game := reset R (game s), selectedSquare := None\<rparr>;
             s2 = updateStatus R s1;
             s3 = sendCommand ev ''stop'' s2
         in sendCommand ev ''ucinewgame'' s3))"

definition undoMove :: "'g rules \<Rightarrow> 'g chess_app \<Rightarrow> 'g chess_app" where
  "undoMove R s =
     (if isThinking s then s
      else updateStatus R (s\<lparr>game := undo R (undo R (game s))\<rparr>))"

definition triggerAi :: "'g rules \<Rightarrow> env \<Rightarrow> 'g chess_app \<Rightarrow> 'g chess_app" where
  "triggerAi R ev s =
     (if game_over R (game s) then s
      else
        (let s1 = s\<lparr>isThinking := True, statusEl := ''AI is thinking...''\<rparr>;
             depth = (case levelSelect s1 of
                        None \<Rightarrow> ''10''
                      | Some d \<Rightarrow> d);
             fen = fen R (game s1)
         in if isReady (engineMgr s1) then
              sendCommand ev (''go depth '' @ depth @ '' movetime '' @ ''2500'')
                (sendCommand ev (''position fen '' @ fen) s1)
            else
              setTimer 1000 RandomMove
                (emit (ConsoleWarn ''Engine not ready, using pure random fallback'') s1)))"

text \<open>\<open>tryMove\<close> returns the new state and the boolean the method returns.\<close>

definition tryMove ::
  "'g rules \<Rightarrow> env \<Rightarrow> string option \<Rightarrow> string \<Rightarrow> 'g chess_app \<Rightarrow> 'g chess_app \<times> bool" where
  "tryMove R ev from to s =
     (case move R (MoveObj from to ''q'') (game s) of
        Some g' \<Rightarrow> (triggerAi R ev (updateStatus R (s\<lparr>game := g'\<rparr>)), True)
      | None \<Rightarrow> (s, False))"

text \<open>
  \<open>handlePointerDown(e, square)\<close>. The first part is the click-click move, the second the
  selection of a piece of the player's colour.
\<close>

definition selectSquare :: "'g rules \<Rightarrow> string \<Rightarrow> 'g chess_app \<Rightarrow> 'g chess_app" where
  "selectSquare R square s =
     (case get R square (game s) of
        Some p \<Rightarrow>
          (if color p = playerColor s
           then s\<lparr>isDragging := True, dragStartSquare := Some square, selectedSquare := Some square\<rparr>
           else s\<lparr>selectedSquare := None\<rparr>)
      | None \<Rightarrow> s\<lparr>selectedSquare := None\<rparr>)"

definition handlePointerDown :: "'g rules \<Rightarrow> env \<Rightarrow> string \<Rightarrow> 'g chess_app \<Rightarrow> 'g chess_app" where
  "handlePointerDown R ev square s =
     (if isThinking s then s
      else if truthy (selectedSquare s) \<and> \<not> isDragging s then
        (let (s', accepted) = tryMove R ev (selectedSquare s) square s
         in if accepted then s'\<lparr>selectedSquare := None\<rparr> else selectSquare R square s')
      else selectSquare R square s)"

text \<open>
  \<open>handlePointerUp(e)\<close>; \<open>target\<close> is the square under the pointer, \<^term>\<open>None\<close> when
  the pointer is released outside the board.
\<close>

definition handlePointerUp :: "'g rules \<Rightarrow> env \<Rightarrow> string option \<Rightarrow> 'g chess_app \<Rightarrow> 'g chess_app" where
  "handlePointerUp R ev target s =
     (let s1 = s\<lparr>isDragging := False\<rparr> in
      case target of
        None \<Rightarrow> s1
      | Some t \<Rightarrow>
          (if Some t \<noteq> dragStartSquare s1 then fst (tryMove R ev (dragStartSquare s1) t s1)
           else s1))"

definition handleAiMove :: "'g rules \<Rightarrow> string option \<Rightarrow> 'g chess_app \<Rightarrow> 'g chess_app" where
  "handleAiMove R bestMove s =
     (if \<not> isThinking s then s
      else
        (case bestMove of
           Some b \<Rightarrow>
             (if b \<noteq> [] \<and> b \<noteq> ''(none)'' then
                (let from = substring 0 2 b;
                     to = substring 2 4 b;
                     promotion = substring 4 5 b;
                     g' = applyMove R (MoveObj (Some from) to promotion) (game s)
                 in updateStatus R (s\<lparr>game := g', isThinking := False\<rparr>))
              else updateStatus R (s\<lparr>isThinking := False\<rparr>))
         | None \<Rightarrow> updateStatus R (s\<lparr>isThinking := False\<rparr>)))"

text \<open>
  \<open>Math.random()\<close> returns a double \<open>d\<close> with \<open>0 \<le> d < 1\<close>. Every such double is
  \<open>mant / 2 ^ expo\<close> for natural numbers with \<open>mant < 2 ^ 53\<close> (53 significant bits),
  \<open>mant < 2 ^ expo\<close> and \<open>expo \<le> 1074\<close> (the smallest exponent of a double).
\<close>

record dyadic =
  mant :: nat
  expo :: nat

definition isUnitDouble :: "dyadic \<Rightarrow> bool" where
  "isUnitDouble d = (mant d < 2 ^ 53 \<and> mant d < 2 ^ expo d \<and> expo d \<le> 1074)"

definition dyadicValue :: "dyadic \<Rightarrow> real" where
  "dyadicValue d = real (mant d) / 2 ^ expo d"

text \<open>The number of binary digits of a natural number.\<close>

fun bits :: "nat \<Rightarrow> nat" where
  "bits n = (if n = 0 then 0 else Suc (bits (n div 2)))"

text \<open>
  \<open>Math.random() * moves.length\<close> is one multiplication of doubles: the exact product
  \<open>a / 2 ^ expo\<close>, with \<open>a = mant * n\<close>, is rounded to 53 significant bits, to the
  nearest double, a tie going to the even one. \<open>roundDouble a\<close> is the numerator of the
  result over the same \<open>2 ^ expo\<close>: with \<open>s\<close> the number of bits of \<open>a\<close> beyond
  53, the last \<open>s\<close> bits are rounded away. (The length is far below \<open>2 ^ 53\<close>, so it
  is a double itself; the product is below it, so nothing overflows; and with
  \<open>expo \<le> 1074\<close> a rounded product is a normal double.) \<open>Math.floor\<close> then takes the
  integer part, which is \<open>randomIndex d n\<close>.
\<close>

definition roundDouble :: "nat \<Rightarrow> nat" where
  "roundDouble a =
     (if bits a \<le> 53 then a
      else
        (let s = bits a - 53;
             q = a div 2 ^ s;
             rest = a mod 2 ^ s;
             half = 2 ^ (s - 1)
         in (if rest > half \<or> (rest = half \<and> odd q) then q + 1 else q) * 2 ^ s))"

definition randomIndex :: "dyadic \<Rightarrow> nat \<Rightarrow> nat" where
  "randomIndex d n = roundDouble (mant d * n) div 2 ^ expo d"

text \<open>\<open>makeRandomMove\<close>; \<open>r\<close> is the value of \<open>Math.random()\<close>.\<close>

definition makeRandomMove :: "'g rules \<Rightarrow> dyadic \<Rightarrow> 'g chess_app \<Rightarrow> 'g chess_app" where
  "makeRandomMove R r s =
     (let ms = moves R (game s);
          g' = (if length ms > 0 then
                  (case index ms (randomIndex r (length ms)) of
                     Some mk \<Rightarrow> applyMove R (MoveSan mk) (game s)
                   | None \<Rightarrow> game s)
                else game s)
      in updateStatus R (s\<lparr>game := g', isThinking := False\<rparr>))"

text \<open>\<open>EngineManager.handleMessage(line)\<close>, with the callbacks of the ChessApp in place.\<close>

definition handleMessage :: "'g rules \<Rightarrow> string \<Rightarrow> 'g chess_app \<Rightarrow> 'g chess_app" where
  "handleMessage R line s =
     (let s1 = (if line = ''uciok'' \<and> \<not> isReady (engineMgr s) then
                  (let s' = s\<lparr>engineMgr := (engineMgr s)\<lparr>isReady := True\<rparr>\<rparr>;
                       s'' = statusCallback
                               (''Stockfish Ready '' @
                                  (if isWorker (engineMgr s') then ''(Worker)'' else ''(Main)'')) s'
                   in onReadyCallback s'')
                else s)
      in if line \<noteq> [] \<and> startsWith line ''bestmove''
         then handleAiMove R (index (split CHR '' '' line) 1) s1
         else s1)"



section \<open>The event loop\<close>

text \<open>
  The constructor of ChessApp: the fields, the EngineManager (whose constructor runs
  \<open>init\<close>), then \<open>ChessApp.init\<close>.
\<close>

definition newChessApp :: "'g rules \<Rightarrow> env \<Rightarrow> string option \<Rightarrow> 'g chess_app" where
  "newChessApp R ev lvl =
     updateStatus R
       (init ev
          \<lparr>game = start R, playerColor = ''w'', isThinking = False, selectedSquare = None,
           isDragging = False, dragStartSquare = None,
           engineMgr = \<lparr>engine = None, isWorker = False, isReady = False\<rparr>,
           statusEl = [], engineStatusEl = [], levelSelect = lvl, timers = [], effects = []\<rparr>)"

text \<open>
  Everything after the constructor is a callback of the event loop: a pointer event, a
  click on one of the two buttons, a change of the difficulty selector, a line from the
  engine (through the worker or through the window), an error of the worker, or a pending
  timer that fires (with the value \<open>Math.random()\<close> would return). \<open>step\<close> lets
  every handler run at any time, also one the browser would no longer call; what is proved
  of all runs of \<open>step\<close> holds of the runs of the browser.
\<close>

datatype event =
    PointerDown string
  | PointerUp "string option"
  | ClickNewGame
  | ClickUndo
  | SelectLevel "string option"
  | EngineLine string
  | WorkerError
  | TimerFires nat dyadic

definition fireTimer :: "'g rules \<Rightarrow> env \<Rightarrow> nat \<Rightarrow> dyadic \<Rightarrow> 'g chess_app \<Rightarrow> 'g chess_app" where
  "fireTimer R ev i r s =
     (if i < length (timers s) then
        (case snd (timers s ! i) of
           WorkerTimeout \<Rightarrow> workerTimeout (clearTimer i s)
         | RandomMove \<Rightarrow> makeRandomMove R r (clearTimer i s)
         | Poll attempts \<Rightarrow> pollTick ev i attempts s)
      else s)"

fun step :: "'g rules \<Rightarrow> env \<Rightarrow> event \<Rightarrow> 'g chess_app \<Rightarrow> 'g chess_app" where
  "step R ev (PointerDown square) s = handlePointerDown R ev square s"
| "step R ev (PointerUp target) s = handlePointerUp R ev target s"
| "step R ev ClickNewGame s = newGame R ev s"
| "step R ev ClickUndo s = undoMove R s"
| "step R ev (SelectLevel v) s = s\<lparr>levelSelect := v\<rparr>"
| "step R ev (EngineLine line) s = handleMessage R line s"
| "step R ev WorkerError s = workerError s"
| "step R ev (TimerFires i r) s = fireTimer R ev i r s"

fun run :: "'g rules \<Rightarrow> (env \<times> event) list \<Rightarrow> 'g chess_app \<Rightarrow> 'g chess_app" where
  "run R [] s = s"
| "run R ((ev, e) # es) s = run R es (step R ev e s)"

inductive reachable :: "'g rules \<Rightarrow> 'g chess_app \<Rightarrow> bool" for R :: "'g rules" where
  reachable_new: "reachable R (newChessApp R ev lvl)"
| reachable_step: "reachable R s \<Longrightarrow> reachable R (step R ev e s)"

code_pred reachable .

section \<open>Derived notions\<close>

text \<open>
  The effects of one \<open>sendCommand\<close>, as a function of the command and of the manager
  (lemma \<open>sendCommand_eq\<close>).
\<close>

definition sendEffects :: "env \<Rightarrow> string \<Rightarrow> engine_mgr \<Rightarrow> effect list" where
  "sendEffects ev cmd m =
     (if \<not> isReady m \<and> cmd \<noteq> ''uci'' then []
      else if isWorker m then
        (case engine m of Some Worker \<Rightarrow> [PostMessage cmd] | None \<Rightarrow> [Throw ''TypeError''])
      else if has_ccall ev then [Ccall cmd]
      else if has_onmessage ev then [WindowOnMessage cmd]
      else [ConsoleWarn ''No valid input channel for Stockfish Main Thread!''])"

text \<open>
  How often the ready callback has fired: the callback the ChessApp passes is
  \<open>console.log("Engine Ready!")\<close>, and nothing else logs that line.
\<close>

definition readyCalls :: "'g chess_app \<Rightarrow> nat" where
  "readyCalls s = count_list (effects s) (ConsoleLog ''Engine Ready!'')"



section \<open>A small Rules Engine and concrete runs\<close>

text \<open>
  The concrete runs below need a Rules Engine. This one knows a game of two half-moves:
  White plays the pawn from e2 to e4, Black answers with the pawn from e7 to e5, and the
  game is over (drawn). The game is the list of the moves played.
\<close>

fun demo_move :: "move_arg \<Rightarrow> string list \<Rightarrow> string list option" where
  "demo_move (MoveObj f t p) g =
     (if g = [] \<and> f = Some ''e2'' \<and> t = ''e4'' then Some [''e2e4'']
      else if length g = 1 \<and> f = Some ''e7'' \<and> t = ''e5'' then Some (g @ [''e7e5''])
      else None)"
| "demo_move (MoveSan m) g =
     (if g = [] \<and> m = ''e4'' then Some [''e2e4'']
      else if length g = 1 \<and> m = ''e5'' then Some (g @ [''e7e5''])
      else None)"

definition demo :: "string list rules" where
  "demo =
     \<lparr>start = [], reset = (\<lambda>g. []), undo = butlast, move = demo_move,
      moves = (\<lambda>g. if g = [] then [''e4''] else if length g = 1 then [''e5''] else []),
      get = (\<lambda>sq g. if (sq = ''e2'' \<and> g = []) \<or> (sq = ''e4'' \<and> g \<noteq> [])
                     then Some \<lparr>color = ''w'', type = ''p''\<rparr>
                     else if (sq = ''e7'' \<and> length g < 2) \<or> (sq = ''e5'' \<and> length g = 2)
                     then Some \<lparr>color = ''b'', type = ''p''\<rparr> else None),
      fen = concat,
      turn = (\<lambda>g. if even (length g) then ''w'' else ''b''),
      in_checkmate = (\<lambda>g. False), in_draw = (\<lambda>g. 2 \<le> length g), game_over = (\<lambda>g. 2 \<le> length g)\<rparr>"

definition page :: env where
  "page = \<lparr>worker_ok = True, module_present = False, has_ccall = False, has_onmessage = False\<rparr>"

text \<open>The application right after its constructor, on a page where the worker starts.\<close>

definition idle :: "string list chess_app" where
  "idle = newChessApp demo page (Some ''5'')"

text \<open>The same application once the worker has answered \<open>uciok\<close>.\<close>

definition ready :: "string list chess_app" where
  "ready = step demo page (EngineLine ''uciok'') idle"

text \<open>Then the player drags the pawn from e2 to e4, and the engine is asked for a move.\<close>

definition searching :: "string list chess_app" where
  "searching =
     run demo [(page, EngineLine ''uciok''), (page, PointerDown ''e2''),
               (page, PointerUp (Some ''e4''))] idle"

text \<open>Then the engine answers.\<close>

definition replied :: "string list chess_app" where
  "replied = step demo page (EngineLine ''bestmove e7e5 ponder g1f3'') searching"

text \<open>
  The application when the engine never became ready: the state in which \<open>tryMove\<close>
  calls \<open>triggerAi\<close> after the pawn went from e2 to e4, and the state after that call.
\<close>

definition moved :: "string list chess_app" where
  "moved = idle\<lparr>game := [''e2e4''], selectedSquare := Some ''e2'', dragStartSquare := Some ''e2'',
                 statusEl := ''AI Turn''\<rparr>"

definition waiting :: "string list chess_app" where
  "waiting = run demo [(page, PointerDown ''e2''), (page, PointerUp (Some ''e4''))] idle"

text \<open>A sequence of events with two readiness signals.\<close>

definition twice :: "(env \<times> event) list" where
  "twice = [(page, EngineLine ''uciok''), (page, PointerDown ''e2''),
            (page, EngineLine ''uciok'')]"

text \<open>
  Two values of \<open>Math.random()\<close>: the double \<open>0.2727272727272727\<close>, just below
  \<open>3 / 11\<close>, and \<open>0.5\<close>.
\<close>

definition third :: dyadic where
  "third = \<lparr>mant = 1228254443828317, expo = 52\<rparr>"

definition half :: dyadic where
  "half = \<lparr>mant = 1, expo = 1\<rparr>"


text \<open>
  The same Rules Engine with eleven replies for Black, for the random move.
\<close>

definition replies :: "string list" where
  "replies = [''a6'', ''b6'', ''c6'', ''d6'', ''e6'', ''f6'', ''g6'', ''h6'', ''Nc6'', ''Nf6'', ''e5'']"

fun wide_move :: "move_arg \<Rightarrow> string list \<Rightarrow> string list option" where
  "wide_move (MoveObj f t p) g = demo_move (MoveObj f t p) g"
| "wide_move (MoveSan m) g =
     (if g = [] \<and> m = ''e4'' then Some [''e2e4'']
      else if length g = 1 \<and> m \<in> set replies then Some (g @ [m])
      else None)"

definition wide :: "string list rules" where
  "wide = demo\<lparr>move := wide_move,
               moves := (\<lambda>g. if g = [] then [''e4''] else if length g = 1 then replies else [])\<rparr>"



text \<open>
  A Rules Engine with one white pawn on e7, which may promote on e8 to any of the four
  pieces. The player lifts the pawn (\<open>lifted\<close>), or lifts it and puts it back, which
  leaves it selected (\<open>chosen\<close>).
\<close>

definition promo :: "string list rules" where
  "promo = demo\<lparr>move := (\<lambda>m g. if g = [] \<and>
                                    m \<in> {MoveObj (Some ''e7'') ''e8'' ''q'',
                                          MoveObj (Some ''e7'') ''e8'' ''r'',
                                          MoveObj (Some ''e7'') ''e8'' ''b'',
                                          MoveObj (Some ''e7'') ''e8'' ''n''}
                                 then (case m of MoveObj f t p \<Rightarrow> Some [''e7e8'' @ p]
                                               | MoveSan x \<Rightarrow> None)
                                 else None),
                get := (\<lambda>sq g. if sq = ''e7'' \<and> g = []
                                then Some \<lparr>color = ''w'', type = ''p''\<rparr> else None),
                in_draw := (\<lambda>g. False), game_over := (\<lambda>g. False)\<rparr>"

definition lifted :: "string list chess_app" where
  "lifted = step promo page (PointerDown ''e7'') (newChessApp promo page (Some ''5''))"

definition chosen :: "string list chess_app" where
  "chosen = step promo page (PointerUp (Some ''e7'')) lifted"

text \<open>
  What \<open>promo\<close> answers when only promotions to a queen are let through.
\<close>

definition queenOnly :: "move_arg \<Rightarrow> string list \<Rightarrow> string list option" where
  "queenOnly m g =
     (case m of
        MoveObj f t p \<Rightarrow> if p = ''q'' then move promo m g else None
      | MoveSan x \<Rightarrow> None)"

section \<open>Basic facts\<close>

subsection \<open>Strings\<close>

lemma bestmove_not_uciok: "startsWith line ''bestmove'' \<Longrightarrow> line \<noteq> ''uciok''"
  by (auto simp: startsWith_def)

lemma split_nosep: "sep \<notin> set w \<Longrightarrow> split sep w = [w]"
  by (induction w) auto

lemma split_field: "sep \<notin> set w \<Longrightarrow> split sep (w @ sep # r) = w # split sep r"
  by (induction w) auto

lemma split_second:
  assumes "sep \<notin> set w" and "sep \<notin> set tok" and "rest = [] \<or> hd rest = sep"
  shows "index (split sep (w @ sep # tok @ rest)) 1 = Some tok"
proof (cases rest)
  case Nil
  with assms show ?thesis by (simp add: split_field split_nosep index_def)
next
  case (Cons c r)
  with assms have "rest = sep # r" by simp
  with assms show ?thesis by (simp add: split_field index_def)
qed

subsection \<open>The random index\<close>

declare bits.simps [simp del]

lemma bits_0 [simp]: "bits 0 = 0"
  by (simp add: bits.simps)

lemma bits_pos: "0 < n \<Longrightarrow> bits n = Suc (bits (n div 2))"
  by (subst bits.simps) simp

lemma bits_lower: "0 < n \<Longrightarrow> 2 ^ (bits n - 1) \<le> n"
proof (induction n rule: bits.induct)
  case (1 n)
  show ?case
  proof (cases "n div 2 = 0")
    case True
    with 1(2) show ?thesis by (simp add: bits_pos)
  next
    case False
    with 1 have "2 ^ (bits (n div 2) - 1) \<le> n div 2" by simp
    then have "2 * 2 ^ (bits (n div 2) - 1) \<le> n" by linarith
    moreover have "bits (n div 2) \<noteq> 0" using False by (simp add: bits_pos)
    then have "(2::nat) * 2 ^ (bits (n div 2) - 1) = 2 ^ bits (n div 2)"
      by (cases "bits (n div 2)") simp_all
    ultimately show ?thesis using 1(2) by (simp add: bits_pos)
  qed
qed

lemma bits_le: "n < 2 ^ k \<Longrightarrow> bits n \<le> k"
proof (rule ccontr)
  assume n: "n < 2 ^ k" and "\<not> bits n \<le> k"
  then have k: "k \<le> bits n - 1" and pos: "0 < n" by (auto intro: gr0I)
  from pos have "2 ^ (bits n - 1) \<le> n" by (rule bits_lower)
  moreover from k have "(2::nat) ^ k \<le> 2 ^ (bits n - 1)" by simp
  ultimately show False using n by linarith
qed

lemma roundDouble_exact: "bits a \<le> 53 \<Longrightarrow> roundDouble a = a"
  by (simp add: roundDouble_def)

text \<open>
What rounding does to a number of more than 53 bits.
\<close>

lemma roundDouble_long:
  assumes "53 < bits a"
  defines "s \<equiv> bits a - 53"
  shows "roundDouble a \<le> a + 2 ^ (s - 1)"
    and "(a div 2 ^ s) * 2 ^ s \<le> roundDouble a"
    and "2 ^ (s - 1) * 2 ^ 53 \<le> a"
proof -
  let ?q = "a div 2 ^ s" and ?rest = "a mod 2 ^ s" and ?half = "(2::nat) ^ (s - 1)"
  have s: "0 < s" using assms by simp
  then have two: "(2::nat) ^ s = 2 * ?half"
    by (cases s) simp_all
  have a: "a = ?q * 2 ^ s + ?rest" by (rule div_mult_mod_eq [symmetric])
  have r: "roundDouble a =
             (if ?rest > ?half \<or> (?rest = ?half \<and> odd ?q) then ?q + 1 else ?q) * 2 ^ s"
    using assms(1) by (simp add: roundDouble_def Let_def s_def)
  show "(a div 2 ^ s) * 2 ^ s \<le> roundDouble a"
    unfolding r by simp
  show "roundDouble a \<le> a + 2 ^ (s - 1)"
  proof (cases "?rest > ?half \<or> (?rest = ?half \<and> odd ?q)")
    case True
    then have "?half \<le> ?rest" by auto
    moreover from True have "roundDouble a = ?q * 2 ^ s + 2 ^ s"
      unfolding r by (simp add: algebra_simps)
    ultimately show ?thesis using a two by linarith
  next
    case False
    then have "roundDouble a = ?q * 2 ^ s" unfolding r by simp
    then show ?thesis using a by linarith
  qed
  have pos: "0 < a" using assms(1) by (auto intro: gr0I)
  then have "2 ^ (bits a - 1) \<le> a" by (rule bits_lower)
  moreover have "bits a - 1 = (s - 1) + 53" using assms(1) by (simp add: s_def)
  ultimately show "2 ^ (s - 1) * 2 ^ 53 \<le> a" by (simp add: power_add)
qed

lemma roundDouble_upper: "roundDouble a * 2 ^ 53 \<le> a * (2 ^ 53 + 1)"
proof (cases "bits a \<le> 53")
  case True
  then show ?thesis by (simp add: roundDouble_exact)
next
  case False
  then have l: "53 < bits a" by simp
  from roundDouble_long(1,3) [OF l]
  have "roundDouble a * 2 ^ 53 \<le> (a + 2 ^ (bits a - 53 - 1)) * 2 ^ 53"
    and "2 ^ (bits a - 53 - 1) * 2 ^ 53 \<le> a" by simp_all
  then show ?thesis by (simp add: algebra_simps)
qed

lemma roundDouble_keeps:
  assumes "2 ^ (bits a - 53) dvd t" and "t \<le> a"
  shows "t \<le> roundDouble a"
proof (cases "bits a \<le> 53")
  case True
  with assms(2) show ?thesis by (simp add: roundDouble_exact)
next
  case False
  then have l: "53 < bits a" by simp
  let ?p = "(2::nat) ^ (bits a - 53)"
  from assms(1) obtain c where t: "t = ?p * c" ..
  with assms(2) have "c \<le> a div ?p"
    by (simp add: less_eq_div_iff_mult_less_eq mult.commute)
  then have "t \<le> (a div ?p) * ?p" by (simp add: t mult.commute)
  also have "\<dots> \<le> roundDouble a" by (rule roundDouble_long(2) [OF l])
  finally show ?thesis .
qed

lemma roundDouble_below:
  assumes m: "m < 2 ^ 53" "m < 2 ^ k" and n: "0 < n"
  shows "roundDouble (m * n) < n * 2 ^ k"
proof (cases "bits (m * n) \<le> 53")
  case True
  then have "roundDouble (m * n) = m * n" by (rule roundDouble_exact)
  also have "\<dots> < n * 2 ^ k" using m(2) n by (simp add: mult.commute)
  finally show ?thesis .
next
  case False
  then have l: "53 < bits (m * n)" by simp
  let ?half = "(2::nat) ^ (bits (m * n) - 53 - 1)"
  from roundDouble_long(3) [OF l] have "?half * 2 ^ 53 \<le> m * n" .
  also have "m * n < 2 ^ 53 * n" using m(1) n by simp
  finally have "?half < n" by (simp add: mult.commute)
  moreover have "m + 1 \<le> 2 ^ k" using m(2) by simp
  then have "(m + 1) * n \<le> 2 ^ k * n" by (rule mult_le_mono1)
  then have "m * n + n \<le> n * 2 ^ k" by (simp add: algebra_simps)
  ultimately have "m * n + ?half < n * 2 ^ k" by linarith
  with roundDouble_long(1) [OF l] show ?thesis by linarith
qed

lemma randomIndex_less:
  assumes "isUnitDouble d" and "0 < n"
  shows "randomIndex d n < n"
proof -
  from assms have "roundDouble (mant d * n) < n * 2 ^ expo d"
    by (intro roundDouble_below) (simp_all add: isUnitDouble_def)
  then show ?thesis
    unfolding randomIndex_def by (simp add: less_mult_imp_div_less)
qed

lemma shift_le_expo:
  assumes "isUnitDouble d" and "n \<le> 2 ^ 53"
  shows "2 ^ (bits (mant d * n) - 53) dvd (c::nat) * 2 ^ expo d"
proof -
  have "mant d * n \<le> mant d * 2 ^ 53" using assms(2) by simp
  also have "\<dots> < 2 ^ expo d * 2 ^ 53"
    using assms(1) by (simp add: isUnitDouble_def)
  finally have "mant d * n < 2 ^ (expo d + 53)" by (simp add: power_add)
  then have "bits (mant d * n) \<le> expo d + 53" by (rule bits_le)
  then have "bits (mant d * n) - 53 \<le> expo d" by simp
  then have "(2::nat) ^ (bits (mant d * n) - 53) dvd 2 ^ expo d" by (rule le_imp_power_dvd)
  then show ?thesis by (rule dvd_mult)
qed

lemma randomIndex_ge:
  assumes "isUnitDouble d" and "n \<le> 2 ^ 53" and "i * 2 ^ expo d \<le> mant d * n"
  shows "i \<le> randomIndex d n"
proof -
  have "i * 2 ^ expo d \<le> roundDouble (mant d * n)"
    using shift_le_expo [OF assms(1,2)] assms(3) by (rule roundDouble_keeps)
  then show ?thesis
    unfolding randomIndex_def by (simp add: less_eq_div_iff_mult_less_eq)
qed

lemma randomIndex_le:
  assumes "mant d * n * (2 ^ 53 + 1) < (i + 1) * 2 ^ expo d * 2 ^ 53"
  shows "randomIndex d n \<le> i"
proof -
  have "roundDouble (mant d * n) * 2 ^ 53 \<le> mant d * n * (2 ^ 53 + 1)"
    by (rule roundDouble_upper)
  also note assms
  finally have "roundDouble (mant d * n) < (i + 1) * 2 ^ expo d" by simp
  then have "roundDouble (mant d * n) div 2 ^ expo d < i + 1"
    by (simp add: less_mult_imp_div_less)
  then show ?thesis by (simp add: randomIndex_def)
qed

lemma randomIndex_chosen:
  assumes "randomIndex d n = i"
  shows "i * 2 ^ expo d * 2 ^ 53 \<le> mant d * n * (2 ^ 53 + 1)"
    and "isUnitDouble d \<Longrightarrow> n \<le> 2 ^ 53 \<Longrightarrow> mant d * n < (i + 1) * 2 ^ expo d"
proof -
  let ?R = "roundDouble (mant d * n)"
  have "i * 2 ^ expo d \<le> ?R"
    unfolding assms [symmetric] randomIndex_def by (rule div_times_less_eq_dividend)
  then have "i * 2 ^ expo d * 2 ^ 53 \<le> ?R * 2 ^ 53" by simp
  also have "\<dots> \<le> mant d * n * (2 ^ 53 + 1)" by (rule roundDouble_upper)
  finally show "i * 2 ^ expo d * 2 ^ 53 \<le> mant d * n * (2 ^ 53 + 1)" .
  show "mant d * n < (i + 1) * 2 ^ expo d" if "isUnitDouble d" and "n \<le> 2 ^ 53"
  proof (rule ccontr)
    assume "\<not> mant d * n < (i + 1) * 2 ^ expo d"
    then have "(i + 1) * 2 ^ expo d \<le> mant d * n" by simp
    with that have "i + 1 \<le> randomIndex d n" by (intro randomIndex_ge)
    with assms show False by simp
  qed
qed

text \<open>
The same in terms of the value of the double.
\<close>

lemma dyadic_le: "real i \<le> dyadicValue d * real n \<longleftrightarrow> i * 2 ^ expo d \<le> mant d * n"
proof -
  have "real i \<le> dyadicValue d * real n \<longleftrightarrow> real i * 2 ^ expo d \<le> real (mant d) * real n"
    by (simp add: dyadicValue_def field_simps)
  also have "\<dots> \<longleftrightarrow> real (i * 2 ^ expo d) \<le> real (mant d * n)" by simp
  also have "\<dots> \<longleftrightarrow> i * 2 ^ expo d \<le> mant d * n" by (rule of_nat_le_iff)
  finally show ?thesis .
qed

lemma dyadic_less: "dyadicValue d * real n < real i \<longleftrightarrow> mant d * n < i * 2 ^ expo d"
proof -
  have "dyadicValue d * real n < real i \<longleftrightarrow> real (mant d) * real n < real i * 2 ^ expo d"
    by (simp add: dyadicValue_def field_simps)
  also have "\<dots> \<longleftrightarrow> real (mant d * n) < real (i * 2 ^ expo d)" by simp
  also have "\<dots> \<longleftrightarrow> mant d * n < i * 2 ^ expo d" by (rule of_nat_less_iff)
  finally show ?thesis .
qed

lemma dyadic_le_rel:
  "real i \<le> dyadicValue d * real n * (1 + 1 / 2 ^ 53) \<longleftrightarrow>
   i * 2 ^ expo d * 2 ^ 53 \<le> mant d * n * (2 ^ 53 + 1)"
proof -
  have "real i \<le> dyadicValue d * real n * (1 + 1 / 2 ^ 53) \<longleftrightarrow>
        real i * 2 ^ expo d * 2 ^ 53 \<le> real (mant d) * real n * (2 ^ 53 + 1)"
    by (simp add: dyadicValue_def field_simps)
  also have "\<dots> \<longleftrightarrow> real (i * 2 ^ expo d * 2 ^ 53) \<le> real (mant d * n * (2 ^ 53 + 1))" by simp
  also have "\<dots> \<longleftrightarrow> i * 2 ^ expo d * 2 ^ 53 \<le> mant d * n * (2 ^ 53 + 1)" by (rule of_nat_le_iff)
  finally show ?thesis .
qed

lemma dyadic_less_rel:
  "dyadicValue d * real n * (1 + 1 / 2 ^ 53) < real i \<longleftrightarrow>
   mant d * n * (2 ^ 53 + 1) < i * 2 ^ expo d * 2 ^ 53"
proof -
  have "dyadicValue d * real n * (1 + 1 / 2 ^ 53) < real i \<longleftrightarrow>
        real (mant d) * real n * (2 ^ 53 + 1) < real i * 2 ^ expo d * 2 ^ 53"
    by (simp add: dyadicValue_def field_simps)
  also have "\<dots> \<longleftrightarrow> real (mant d * n * (2 ^ 53 + 1)) < real (i * 2 ^ expo d * 2 ^ 53)" by simp
  also have "\<dots> \<longleftrightarrow> mant d * n * (2 ^ 53 + 1) < i * 2 ^ expo d * 2 ^ 53" by (rule of_nat_less_iff)
  finally show ?thesis .
qed

lemma randomIndex_interval:
  assumes "isUnitDouble d" and "n \<le> 2 ^ 53"
  shows "real i \<le> dyadicValue d * real n \<Longrightarrow>
         dyadicValue d * real n * (1 + 1 / 2 ^ 53) < real (i + 1) \<Longrightarrow> randomIndex d n = i"
    and "randomIndex d n = i \<Longrightarrow>
         real i \<le> dyadicValue d * real n * (1 + 1 / 2 ^ 53) \<and>
         dyadicValue d * real n < real (i + 1)"
proof -
  show "randomIndex d n = i"
    if "real i \<le> dyadicValue d * real n"
      and "dyadicValue d * real n * (1 + 1 / 2 ^ 53) < real (i + 1)"
  proof (rule antisym)
    from that(2) show "randomIndex d n \<le> i"
      unfolding dyadic_less_rel by (rule randomIndex_le)
    from that(1) show "i \<le> randomIndex d n"
      unfolding dyadic_le by (rule randomIndex_ge [OF assms])
  qed
  show "real i \<le> dyadicValue d * real n * (1 + 1 / 2 ^ 53) \<and>
        dyadicValue d * real n < real (i + 1)"
    if "randomIndex d n = i"
    unfolding dyadic_le_rel dyadic_less
    using randomIndex_chosen [OF that] assms by simp
qed

lemma third_index: "randomIndex third 11 = 3"
  by (simp add: third_def randomIndex_def roundDouble_def bits.simps Let_def)

lemma half_index: "randomIndex half 11 = 5"
  by (simp add: half_def randomIndex_def roundDouble_def bits.simps Let_def)

subsection \<open>What the methods change\<close>

lemma sendCommand_eq:
  "sendCommand ev cmd s = s\<lparr>effects := effects s @ sendEffects ev cmd (engineMgr s)\<rparr>"
  by (simp add: sendCommand_def sendEffects_def emit_def split: option.split handle.split)

lemma updateStatus_fields [simp]:
  "game (updateStatus R s) = game s"
  "isThinking (updateStatus R s) = isThinking s"
  "engineMgr (updateStatus R s) = engineMgr s"
  "effects (updateStatus R s) = effects s"
  "timers (updateStatus R s) = timers s"
  "selectedSquare (updateStatus R s) = selectedSquare s"
  "dragStartSquare (updateStatus R s) = dragStartSquare s"
  "isDragging (updateStatus R s) = isDragging s"
  "playerColor (updateStatus R s) = playerColor s"
  "levelSelect (updateStatus R s) = levelSelect s"
  by (simp_all add: updateStatus_def)

lemma switchToMainThread_eq:
  "switchToMainThread s =
     s\<lparr>engineMgr := (engineMgr s)\<lparr>engine := (if isWorker (engineMgr s) then None
                                                else engine (engineMgr s)),
                                     isWorker := False\<rparr>,
       engineStatusEl := ''Loading Main Thread Engine...'',
       timers := timers s @ [(500, Poll 0)],
       effects := effects s @ (if isWorker (engineMgr s) \<and> engine (engineMgr s) \<noteq> None
                               then [Terminate] else [])\<rparr>"
  by (cases "engine (engineMgr s)")
     (simp_all add: switchToMainThread_def waitForStockfishModule_def setTimer_def
        statusCallback_def emit_def)

lemma handleAiMove_idle: "\<not> isThinking s \<Longrightarrow> handleAiMove R b s = s"
  by (simp add: handleAiMove_def)

lemma triggerAi_game [simp]: "game (triggerAi R ev s) = game s"
  by (simp add: triggerAi_def sendCommand_eq setTimer_def emit_def Let_def)

lemma triggerAi_squares [simp]:
  "dragStartSquare (triggerAi R ev s) = dragStartSquare s"
  "selectedSquare (triggerAi R ev s) = selectedSquare s"
  "isDragging (triggerAi R ev s) = isDragging s"
  by (simp_all add: triggerAi_def sendCommand_eq setTimer_def emit_def Let_def)

lemma triggerAi_not_ready:
  assumes "\<not> game_over R (game s)" and "\<not> isReady (engineMgr s)"
  shows "triggerAi R ev s =
           s\<lparr>isThinking := True, statusEl := ''AI is thinking...'',
             timers := timers s @ [(1000, RandomMove)],
             effects := effects s @ [ConsoleWarn ''Engine not ready, using pure random fallback'']\<rparr>"
  using assms by (simp add: triggerAi_def setTimer_def emit_def)

lemma tryMove_game:
  "game (fst (tryMove R ev from to s)) = applyMove R (MoveObj from to ''q'') (game s)"
  by (simp add: tryMove_def applyMove_def split: option.split)

lemma tryMove_refused:
  "move R (MoveObj from to ''q'') (game s) = None \<Longrightarrow> tryMove R ev from to s = (s, False)"
  by (simp add: tryMove_def)

lemma tryMove_accepted:
  assumes "move R (MoveObj from to ''q'') (game s) = Some g'"
  shows "tryMove R ev from to s = (triggerAi R ev (updateStatus R (s\<lparr>game := g'\<rparr>)), True)"
  using assms by (simp add: tryMove_def)

lemma selectSquare_game [simp]: "game (selectSquare R square s) = game s"
  by (simp add: selectSquare_def split: option.split)


lemma makeRandomMove_idle [simp]: "\<not> isThinking (makeRandomMove R r s)"
  by (simp add: makeRandomMove_def Let_def)

lemma makeRandomMove_no_moves:
  "moves R (game s) = [] \<Longrightarrow> game (makeRandomMove R r s) = game s"
  by (simp add: makeRandomMove_def)

lemma makeRandomMove_game:
  assumes "isUnitDouble r" and "moves R (game s) \<noteq> []"
  shows "game (makeRandomMove R r s) =
           applyMove R (MoveSan (moves R (game s) ! randomIndex r (length (moves R (game s))))) (game s)"
  using assms randomIndex_less [of r "length (moves R (game s))"]
  by (simp add: makeRandomMove_def Let_def index_def)

lemma handlePointerUp_outside: "handlePointerUp R ev None s = s\<lparr>isDragging := False\<rparr>"
  by (simp add: handlePointerUp_def)

lemma handlePointerUp_same:
  assumes "Some t = dragStartSquare s"
  shows "handlePointerUp R ev (Some t) s = s\<lparr>isDragging := False\<rparr>"
proof -
  from assms have "dragStartSquare s = Some t" by simp
  then show ?thesis by (simp add: handlePointerUp_def Let_def)
qed

lemma handlePointerUp_other:
  "Some t \<noteq> dragStartSquare s \<Longrightarrow>
   handlePointerUp R ev (Some t) s =
     fst (tryMove R ev (dragStartSquare s) t (s\<lparr>isDragging := False\<rparr>))"
  by (simp add: handlePointerUp_def Let_def)


lemma handlePointerUp_drop:
  assumes "Some t \<noteq> dragStartSquare s"
  shows "game (handlePointerUp R ev (Some t) s) =
           applyMove R (MoveObj (dragStartSquare s) t ''q'') (game s)"
  using assms by (simp add: handlePointerUp_other tryMove_game)

lemma handlePointerDown_click:
  assumes "\<not> isThinking s" and "truthy (selectedSquare s)" and "\<not> isDragging s"
  shows "game (handlePointerDown R ev square s) =
           applyMove R (MoveObj (selectedSquare s) square ''q'') (game s)"
proof (cases "move R (MoveObj (selectedSquare s) square ''q'') (game s)")
  case None
  then have "tryMove R ev (selectedSquare s) square s = (s, False)" by (rule tryMove_refused)
  with assms None show ?thesis by (simp add: handlePointerDown_def applyMove_def)
next
  case (Some g')
  then have "tryMove R ev (selectedSquare s) square s =
      (triggerAi R ev (updateStatus R (s\<lparr>game := g'\<rparr>)), True)" by (rule tryMove_accepted)
  with assms Some show ?thesis by (simp add: handlePointerDown_def applyMove_def)
qed

lemma handlePointerDown_select:
  assumes "isThinking s \<or> \<not> truthy (selectedSquare s) \<or> isDragging s"
  shows "game (handlePointerDown R ev square s) = game s"
  using assms by (auto simp: handlePointerDown_def)

lemma updateStatus_only_queen: "updateStatus (R\<lparr>move := mv\<rparr>) s = updateStatus R s"
  by (simp add: updateStatus_def)

lemma triggerAi_only_queen: "triggerAi (R\<lparr>move := mv\<rparr>) ev s = triggerAi R ev s"
  by (simp add: triggerAi_def)

lemma tryMove_only_queen:
  assumes "\<forall>f t g. mv (MoveObj f t ''q'') g = move R (MoveObj f t ''q'') g"
  shows "tryMove (R\<lparr>move := mv\<rparr>) ev from to s = tryMove R ev from to s"
  using assms
  by (simp add: tryMove_def triggerAi_only_queen updateStatus_only_queen split: option.split)

lemma selectSquare_only_queen: "selectSquare (R\<lparr>move := mv\<rparr>) square s = selectSquare R square s"
  by (simp add: selectSquare_def)

subsection \<open>The concrete runs\<close>

lemma idle_eq: "idle = \<lparr>game = [], playerColor = ''w'', isThinking = False, selectedSquare = None,
    isDragging = False, dragStartSquare = None,
    engineMgr = \<lparr>engine = Some Worker, isWorker = True, isReady = False\<rparr>,
    statusEl = ''Your Turn'', engineStatusEl = ''Initializing Engine...'',
    levelSelect = Some ''5'', timers = [(2000, WorkerTimeout)],
    effects = [PostMessage ''uci'']\<rparr>"
  by (simp add: idle_def newChessApp_def init_def statusCallback_def emit_def setTimer_def updateStatus_def demo_def page_def)

lemma ready_eq:
  "ready = \<lparr>game = [], playerColor = ''w'', isThinking = False,
     selectedSquare = None, isDragging = False, dragStartSquare = None,
     engineMgr = \<lparr>engine = Some Worker, isWorker = True, isReady = True\<rparr>,
     statusEl = ''Your Turn'', engineStatusEl = ''Stockfish Ready (Worker)'',
     levelSelect = Some ''5'', timers = [(2000, WorkerTimeout)],
     effects = [PostMessage ''uci'', ConsoleLog ''Engine Ready!'']\<rparr>"
  by (simp add: ready_def idle_eq handleMessage_def startsWith_def statusCallback_def
      onReadyCallback_def emit_def)

lemma searching_eq:
  "searching = \<lparr>game = [''e2e4''], playerColor = ''w'', isThinking = True,
     selectedSquare = Some ''e2'', isDragging = False, dragStartSquare = Some ''e2'',
     engineMgr = \<lparr>engine = Some Worker, isWorker = True, isReady = True\<rparr>,
     statusEl = ''AI is thinking...'', engineStatusEl = ''Stockfish Ready (Worker)'',
     levelSelect = Some ''5'', timers = [(2000, WorkerTimeout)],
     effects = [PostMessage ''uci'', ConsoleLog ''Engine Ready!'',
                PostMessage ''position fen e2e4'', PostMessage ''go depth 5 movetime 2500'']\<rparr>"
  by (simp add: searching_def idle_eq handleMessage_def startsWith_def statusCallback_def
      onReadyCallback_def emit_def handlePointerDown_def truthy_def selectSquare_def demo_def
      handlePointerUp_def tryMove_def updateStatus_def triggerAi_def sendCommand_def)

lemma replied_eq:
  "replied = \<lparr>game = [''e2e4'', ''e7e5''], playerColor = ''w'', isThinking = False,
     selectedSquare = Some ''e2'', isDragging = False, dragStartSquare = Some ''e2'',
     engineMgr = \<lparr>engine = Some Worker, isWorker = True, isReady = True\<rparr>,
     statusEl = ''Draw!'', engineStatusEl = ''Stockfish Ready (Worker)'',
     levelSelect = Some ''5'', timers = [(2000, WorkerTimeout)],
     effects = [PostMessage ''uci'', ConsoleLog ''Engine Ready!'',
                PostMessage ''position fen e2e4'', PostMessage ''go depth 5 movetime 2500'']\<rparr>"
  by (simp add: replied_def searching_eq handleMessage_def startsWith_def handleAiMove_def
      index_def substring_def updateStatus_def demo_def applyMove_def)

lemma waiting_eq:
  "waiting = \<lparr>game = [''e2e4''], playerColor = ''w'', isThinking = True,
     selectedSquare = Some ''e2'', isDragging = False, dragStartSquare = Some ''e2'',
     engineMgr = \<lparr>engine = Some Worker, isWorker = True, isReady = False\<rparr>,
     statusEl = ''AI is thinking...'', engineStatusEl = ''Initializing Engine...'',
     levelSelect = Some ''5'', timers = [(2000, WorkerTimeout), (1000, RandomMove)],
     effects = [PostMessage ''uci'',
                ConsoleWarn ''Engine not ready, using pure random fallback'']\<rparr>"
  by (simp add: waiting_def idle_eq emit_def handlePointerDown_def truthy_def selectSquare_def
      demo_def handlePointerUp_def tryMove_def updateStatus_def triggerAi_def setTimer_def)


lemma demo_undo: "move demo m h = Some h' \<Longrightarrow> undo demo h' = h"
  by (cases m) (auto simp: demo_def split: if_splits)






lemma lifted_eq:
  "lifted = \<lparr>game = [], playerColor = ''w'', isThinking = False,
     selectedSquare = Some ''e7'', isDragging = True, dragStartSquare = Some ''e7'',
     engineMgr = \<lparr>engine = Some Worker, isWorker = True, isReady = False\<rparr>,
     statusEl = ''Your Turn'', engineStatusEl = ''Initializing Engine...'',
     levelSelect = Some ''5'', timers = [(2000, WorkerTimeout)],
     effects = [PostMessage ''uci'']\<rparr>"
  by (simp add: lifted_def newChessApp_def init_def statusCallback_def emit_def setTimer_def
      page_def handlePointerDown_def truthy_def selectSquare_def promo_def demo_def
      updateStatus_def)

lemma chosen_eq: "chosen = lifted\<lparr>isDragging := False\<rparr>"
  by (simp add: chosen_def lifted_eq handlePointerUp_def)

section \<open>Readiness over the event loop\<close>

lemma readyCalls_update [simp]:
  "readyCalls (s\<lparr>game := g\<rparr>) = readyCalls s"
  "readyCalls (s\<lparr>isThinking := b\<rparr>) = readyCalls s"
  "readyCalls (s\<lparr>selectedSquare := q\<rparr>) = readyCalls s"
  "readyCalls (s\<lparr>isDragging := b\<rparr>) = readyCalls s"
  "readyCalls (s\<lparr>dragStartSquare := q\<rparr>) = readyCalls s"
  "readyCalls (s\<lparr>engineMgr := m\<rparr>) = readyCalls s"
  "readyCalls (s\<lparr>statusEl := t\<rparr>) = readyCalls s"
  "readyCalls (s\<lparr>engineStatusEl := t\<rparr>) = readyCalls s"
  "readyCalls (s\<lparr>levelSelect := l\<rparr>) = readyCalls s"
  "readyCalls (s\<lparr>timers := ts\<rparr>) = readyCalls s"
  by (simp_all add: readyCalls_def)

lemma readyCalls_emit [simp]:
  "readyCalls (emit e s) = readyCalls s + (if e = ConsoleLog ''Engine Ready!'' then 1 else 0)"
  by (simp add: readyCalls_def emit_def)

lemma readyCalls_small [simp]:
  "readyCalls (updateStatus R s) = readyCalls s"
  "readyCalls (setTimer ms t s) = readyCalls s"
  "readyCalls (clearTimer i s) = readyCalls s"
  "readyCalls (statusCallback txt s) = readyCalls s"
  by (simp_all add: updateStatus_def setTimer_def clearTimer_def statusCallback_def)

lemma mgr_small [simp]:
  "engineMgr (emit e s) = engineMgr s"
  "engineMgr (setTimer ms t s) = engineMgr s"
  "engineMgr (clearTimer i s) = engineMgr s"
  "engineMgr (statusCallback txt s) = engineMgr s"
  by (simp_all add: emit_def setTimer_def clearTimer_def statusCallback_def)

lemma sendCommand_mgr [simp]: "engineMgr (sendCommand ev cmd s) = engineMgr s"
  by (simp add: sendCommand_eq)

lemma sendCommand_readyCalls [simp]: "readyCalls (sendCommand ev cmd s) = readyCalls s"
  by (simp add: sendCommand_eq readyCalls_def sendEffects_def split: option.split handle.split)

lemma triggerAi_mgr [simp]: "engineMgr (triggerAi R ev s) = engineMgr s"
  by (simp add: triggerAi_def Let_def)

lemma triggerAi_readyCalls [simp]: "readyCalls (triggerAi R ev s) = readyCalls s"
  by (simp add: triggerAi_def Let_def)

lemma tryMove_mgr [simp]: "engineMgr (fst (tryMove R ev from to s)) = engineMgr s"
  by (simp add: tryMove_def split: option.split)

lemma tryMove_readyCalls [simp]: "readyCalls (fst (tryMove R ev from to s)) = readyCalls s"
  by (simp add: tryMove_def split: option.split)

lemma selectSquare_mgr [simp]: "engineMgr (selectSquare R square s) = engineMgr s"
  by (simp add: selectSquare_def split: option.split)

lemma selectSquare_readyCalls [simp]: "readyCalls (selectSquare R square s) = readyCalls s"
  by (simp add: selectSquare_def split: option.split)

lemma handlePointerDown_mgr [simp]: "engineMgr (handlePointerDown R ev square s) = engineMgr s"
proof (cases "tryMove R ev (selectedSquare s) square s")
  case (Pair s' ok)
  then have "engineMgr s' = engineMgr s"
    using tryMove_mgr [of R ev "selectedSquare s" square s] by simp
  with Pair show ?thesis by (simp add: handlePointerDown_def)
qed

lemma handlePointerDown_readyCalls [simp]:
  "readyCalls (handlePointerDown R ev square s) = readyCalls s"
proof (cases "tryMove R ev (selectedSquare s) square s")
  case (Pair s' ok)
  then have "readyCalls s' = readyCalls s"
    using tryMove_readyCalls [of R ev "selectedSquare s" square s] by simp
  with Pair show ?thesis by (simp add: handlePointerDown_def)
qed

lemma handlePointerUp_mgr [simp]: "engineMgr (handlePointerUp R ev target s) = engineMgr s"
  by (simp add: handlePointerUp_def Let_def split: option.split)

lemma handlePointerUp_readyCalls [simp]:
  "readyCalls (handlePointerUp R ev target s) = readyCalls s"
  by (simp add: handlePointerUp_def Let_def split: option.split)

lemma newGame_mgr [simp]: "engineMgr (newGame R ev s) = engineMgr s"
  by (simp add: newGame_def)

lemma newGame_readyCalls [simp]: "readyCalls (newGame R ev s) = readyCalls s"
  by (simp add: newGame_def)

lemma undoMove_mgr [simp]: "engineMgr (undoMove R s) = engineMgr s"
  by (simp add: undoMove_def)

lemma undoMove_readyCalls [simp]: "readyCalls (undoMove R s) = readyCalls s"
  by (simp add: undoMove_def)

lemma handleAiMove_mgr [simp]: "engineMgr (handleAiMove R b s) = engineMgr s"
  by (simp add: handleAiMove_def Let_def split: option.split)

lemma handleAiMove_readyCalls [simp]: "readyCalls (handleAiMove R b s) = readyCalls s"
  by (simp add: handleAiMove_def Let_def split: option.split)

lemma makeRandomMove_mgr [simp]: "engineMgr (makeRandomMove R r s) = engineMgr s"
  by (simp add: makeRandomMove_def Let_def)

lemma makeRandomMove_readyCalls [simp]: "readyCalls (makeRandomMove R r s) = readyCalls s"
  by (simp add: makeRandomMove_def Let_def)

lemma switchToMainThread_ready [simp]:
  "isReady (engineMgr (switchToMainThread s)) = isReady (engineMgr s)"
  by (simp add: switchToMainThread_def waitForStockfishModule_def Let_def)

lemma switchToMainThread_readyCalls [simp]:
  "readyCalls (switchToMainThread s) = readyCalls s"
  by (simp add: switchToMainThread_def waitForStockfishModule_def Let_def)

lemma workerTimeout_ready [simp]:
  "isReady (engineMgr (workerTimeout s)) = isReady (engineMgr s)"
  by (simp add: workerTimeout_def)

lemma workerTimeout_readyCalls [simp]: "readyCalls (workerTimeout s) = readyCalls s"
  by (simp add: workerTimeout_def)

lemma pollTick_ready [simp]:
  "isReady (engineMgr (pollTick ev i a s)) = isReady (engineMgr s)"
  by (simp add: pollTick_def initMainThread_def Let_def)

lemma pollTick_readyCalls [simp]: "readyCalls (pollTick ev i a s) = readyCalls s"
  by (simp add: pollTick_def initMainThread_def Let_def)

lemma fireTimer_ready [simp]:
  "isReady (engineMgr (fireTimer R ev i r s)) = isReady (engineMgr s)"
  by (simp add: fireTimer_def split: timer.split)

lemma fireTimer_readyCalls [simp]: "readyCalls (fireTimer R ev i r s) = readyCalls s"
  by (simp add: fireTimer_def split: timer.split)

lemma handleMessage_ready:
  "isReady (engineMgr (handleMessage R line s)) = (isReady (engineMgr s) \<or> line = ''uciok'')"
  by (auto simp: handleMessage_def onReadyCallback_def Let_def)

lemma handleMessage_readyCalls:
  "readyCalls (handleMessage R line s) =
     (if line = ''uciok'' \<and> \<not> isReady (engineMgr s) then readyCalls s + 1 else readyCalls s)"
  by (auto simp: handleMessage_def onReadyCallback_def Let_def)

lemma step_ready:
  "isReady (engineMgr (step R ev e s)) = (isReady (engineMgr s) \<or> e = EngineLine ''uciok'')"
  by (cases e) (simp_all add: handleMessage_ready workerError_def)

lemma step_readyCalls:
  "readyCalls (step R ev e s) =
     (if e = EngineLine ''uciok'' \<and> \<not> isReady (engineMgr s) then readyCalls s + 1
      else readyCalls s)"
  by (cases e) (simp_all add: handleMessage_readyCalls workerError_def)

lemma run_ready:
  "isReady (engineMgr (run R es s)) =
     (isReady (engineMgr s) \<or> EngineLine ''uciok'' \<in> set (map snd es))"
proof (induction es arbitrary: s)
  case Nil
  show ?case by simp
next
  case (Cons x es)
  obtain ev e where x: "x = (ev, e)" by (cases x)
  show ?case
    unfolding x using Cons [of "step R ev e s"]
    by (auto simp: step_ready simp del: step.simps)
qed

lemma run_readyCalls:
  "readyCalls (run R es s) =
     (if EngineLine ''uciok'' \<in> set (map snd es) \<and> \<not> isReady (engineMgr s)
      then readyCalls s + 1 else readyCalls s)"
proof (induction es arbitrary: s)
  case Nil
  show ?case by simp
next
  case (Cons x es)
  obtain ev e where x: "x = (ev, e)" by (cases x)
  show ?case
    unfolding x using Cons [of "step R ev e s"]
    by (auto simp: step_ready step_readyCalls simp del: step.simps)
qed

lemma newChessApp_not_ready:
  "\<not> isReady (engineMgr (newChessApp R ev lvl))" "readyCalls (newChessApp R ev lvl) = 0"
  by (simp_all add: newChessApp_def init_def Let_def readyCalls_def emit_def setTimer_def
      statusCallback_def switchToMainThread_def waitForStockfishModule_def)

section \<open>The worker and its handle\<close>

lemma handleMessage_mgr:
  "engineMgr (handleMessage R line s) =
     (engineMgr s)\<lparr>isReady := isReady (engineMgr s) \<or> line = ''uciok''\<rparr>"
  by (auto simp: handleMessage_def onReadyCallback_def Let_def)

lemma fireTimer_worker_engine:
  assumes "isWorker (engineMgr s) \<longleftrightarrow> engine (engineMgr s) = Some Worker"
  shows "isWorker (engineMgr (fireTimer R ev i r s)) \<longleftrightarrow>
         engine (engineMgr (fireTimer R ev i r s)) = Some Worker"
  using assms
  by (auto simp: fireTimer_def workerTimeout_def switchToMainThread_eq pollTick_def
      initMainThread_def Let_def split: timer.split)

lemma step_worker_engine:
  assumes "isWorker (engineMgr s) \<longleftrightarrow> engine (engineMgr s) = Some Worker"
  shows "isWorker (engineMgr (step R ev e s)) \<longleftrightarrow> engine (engineMgr (step R ev e s)) = Some Worker"
proof (cases e)
  case (EngineLine line)
  with assms show ?thesis by (simp add: handleMessage_mgr)
next
  case WorkerError
  with assms show ?thesis by (simp add: workerError_def switchToMainThread_eq)
next
  case (TimerFires i r)
  with assms show ?thesis by (simp add: fireTimer_worker_engine)
qed (use assms in simp_all)

lemma reachable_worker_engine:
  "reachable R s \<Longrightarrow> isWorker (engineMgr s) \<longleftrightarrow> engine (engineMgr s) = Some Worker"
proof (induction rule: reachable.induct)
  case (reachable_new ev lvl)
  show ?case
    by (simp add: newChessApp_def init_def Let_def switchToMainThread_eq emit_def setTimer_def
        statusCallback_def)
next
  case (reachable_step s ev e)
  from reachable_step.IH show ?case by (rule step_worker_engine)
qed

section \<open>No move from the vacated square while thinking\<close>















section \<open>The claims\<close>

subsection \<open>Stale replies\<close>

text \<open>
  Claim C1. A best-move reply that reaches the reply handler \<open>handleAiMove\<close> while
  \<open>isThinking\<close> is false is discarded whatever its payload: the whole state (the game
  with its board and turn, the thinking flag and everything else) is left as it was. The
  same holds one level up, for every line starting with \<open>bestmove\<close> that reaches
  \<open>handleMessage\<close>.
\<close>

theorem stale_reply_discarded:
  assumes "\<not> isThinking s"
  shows "handleAiMove R bestMove s = s \<and>
         (startsWith line ''bestmove'' \<longrightarrow> handleMessage R line s = s)"
proof
  show "handleAiMove R bestMove s = s"
    using assms by (rule handleAiMove_idle)
  show "startsWith line ''bestmove'' \<longrightarrow> handleMessage R line s = s"
  proof
    assume b: "startsWith line ''bestmove''"
    then have "line \<noteq> ''uciok''" by (rule bestmove_not_uciok)
    then show "handleMessage R line s = s"
      using assms by (simp add: handleMessage_def handleAiMove_idle)
  qed
qed

theorem stale_reply_discarded_witness:
  "\<not> isThinking idle \<and> handleAiMove demo (Some ''e7e5'') idle = idle \<and>
   startsWith ''bestmove e7e5'' ''bestmove'' \<and> handleMessage demo ''bestmove e7e5'' idle = idle"
proof -
  have h: "\<not> isThinking idle" by (simp add: idle_eq)
  have b: "startsWith ''bestmove e7e5'' ''bestmove''" by (simp add: startsWith_def)
  from stale_reply_discarded [OF h, of demo "Some ''e7e5''" "''bestmove e7e5''"] h b
  show ?thesis by simp
qed

subsection \<open>New game and undo\<close>

text \<open>
  Claim C2, as stated, fails: \<open>newGame\<close> and \<open>undoMove\<close> both start with
  \<open>if (this.isThinking) return\<close>. In the middle of a search, with the engine ready, they
  leave \<open>isThinking\<close> true and \<open>newGame\<close> sends nothing.
\<close>

theorem reset_while_thinking_counterexample:
  "isThinking searching \<and> isReady (engineMgr searching) \<and>
   isThinking (newGame demo page searching) \<and> isThinking (undoMove demo searching) \<and>
   effects (newGame demo page searching) = effects searching"
  by (simp add: searching_eq newGame_def undoMove_def)

text \<open>
  Claim C2, amended. While \<open>isThinking\<close> is true, \<open>newGame\<close> and \<open>undoMove\<close>
  do nothing at all. While it is false they leave it false; \<open>newGame\<close> resets the game
  and hands \<open>stop\<close> and then \<open>ucinewgame\<close> to \<open>sendCommand\<close>, which posts both
  to the worker when the manager is ready in worker mode; \<open>undoMove\<close> sends nothing.
\<close>

theorem reset_guarded:
  "(isThinking s \<longrightarrow> newGame R ev s = s \<and> undoMove R s = s) \<and>
   (\<not> isThinking s \<longrightarrow>
      \<not> isThinking (newGame R ev s) \<and> \<not> isThinking (undoMove R s) \<and>
      game (newGame R ev s) = reset R (game s) \<and>
      effects (undoMove R s) = effects s \<and>
      effects (newGame R ev s) = effects (sendCommand ev ''ucinewgame'' (sendCommand ev ''stop'' s)) \<and>
      (isReady (engineMgr s) \<and> isWorker (engineMgr s) \<and> engine (engineMgr s) = Some Worker \<longrightarrow>
         effects (newGame R ev s) = effects s @ [PostMessage ''stop'', PostMessage ''ucinewgame'']))"
  by (simp add: newGame_def undoMove_def sendCommand_eq sendEffects_def)

theorem reset_guarded_witness:
  "isThinking searching \<and> newGame demo page searching = searching \<and>
   undoMove demo searching = searching \<and>
   \<not> isThinking ready \<and> \<not> isThinking (newGame demo page ready) \<and>
   \<not> isThinking (undoMove demo ready) \<and>
   isReady (engineMgr ready) \<and> isWorker (engineMgr ready) \<and>
   engine (engineMgr ready) = Some Worker \<and>
   effects (newGame demo page ready) =
     effects ready @ [PostMessage ''stop'', PostMessage ''ucinewgame'']"
proof -
  have t: "isThinking searching" by (simp add: searching_eq)
  have i: "\<not> isThinking ready" "isReady (engineMgr ready)" "isWorker (engineMgr ready)"
    "engine (engineMgr ready) = Some Worker"
    by (simp_all add: ready_eq)
  from reset_guarded [of searching demo page] reset_guarded [of ready demo page] t i
  show ?thesis by blast
qed

subsection \<open>Readiness is signalled once\<close>

text \<open>
  Claim C3. Take any sequence of events of the event loop (engine lines among pointer
  events, clicks, worker errors and timers) in which the line \<open>uciok\<close> occurs at least
  once. Run from the constructor, the ready callback has fired exactly once at the end,
  and so it has from any state that is not ready. After every prefix of the sequence that
  contains \<open>uciok\<close> the manager is ready; and from a ready state no sequence of events
  makes it unready or fires the callback again.
\<close>

theorem ready_once:
  assumes "EngineLine ''uciok'' \<in> set (map snd es)"
  shows "readyCalls (run R es (newChessApp R ev lvl)) = 1 \<and>
         (\<forall>s. \<not> isReady (engineMgr s) \<longrightarrow> readyCalls (run R es s) = readyCalls s + 1) \<and>
         (\<forall>s n. EngineLine ''uciok'' \<in> set (map snd (take n es)) \<longrightarrow>
                isReady (engineMgr (run R (take n es) s))) \<and>
         (\<forall>s fs. isReady (engineMgr s) \<longrightarrow>
                  isReady (engineMgr (run R fs s)) \<and> readyCalls (run R fs s) = readyCalls s)"
proof (intro conjI allI impI)
  show "readyCalls (run R es (newChessApp R ev lvl)) = 1"
    using assms by (simp add: run_readyCalls newChessApp_not_ready)
next
  fix s :: "'a chess_app"
  assume "\<not> isReady (engineMgr s)"
  with assms show "readyCalls (run R es s) = readyCalls s + 1"
    by (simp add: run_readyCalls)
next
  fix s :: "'a chess_app" and n
  assume "EngineLine ''uciok'' \<in> set (map snd (take n es))"
  then show "isReady (engineMgr (run R (take n es) s))"
    by (simp add: run_ready)
next
  fix s :: "'a chess_app" and fs
  assume "isReady (engineMgr s)"
  then show "isReady (engineMgr (run R fs s))" by (simp add: run_ready)
next
  fix s :: "'a chess_app" and fs
  assume "isReady (engineMgr s)"
  then show "readyCalls (run R fs s) = readyCalls s" by (simp add: run_readyCalls)
qed

theorem ready_once_witness:
  "EngineLine ''uciok'' \<in> set (map snd twice) \<and>
   readyCalls (run demo twice (newChessApp demo page (Some ''5''))) = 1 \<and>
   \<not> isReady (engineMgr idle) \<and> readyCalls (run demo twice idle) = readyCalls idle + 1 \<and>
   EngineLine ''uciok'' \<in> set (map snd (take 1 twice)) \<and>
   isReady (engineMgr (run demo (take 1 twice) idle)) \<and>
   isReady (engineMgr ready) \<and> isReady (engineMgr (run demo twice ready)) \<and>
   readyCalls (run demo twice ready) = readyCalls ready"
proof -
  have a: "EngineLine ''uciok'' \<in> set (map snd twice)" by (simp add: twice_def)
  have b: "\<not> isReady (engineMgr idle)" by (simp add: idle_eq)
  have c: "EngineLine ''uciok'' \<in> set (map snd (take 1 twice))" by (simp add: twice_def)
  have d: "isReady (engineMgr ready)" by (simp add: ready_eq)
  note t = ready_once [OF a, of demo page "Some ''5''"]
  from t have 1: "readyCalls (run demo twice (newChessApp demo page (Some ''5''))) = 1" by blast
  from t b have 2: "readyCalls (run demo twice idle) = readyCalls idle + 1" by blast
  from t c have 3: "isReady (engineMgr (run demo (take 1 twice) idle))" by blast
  from t d have 4: "isReady (engineMgr (run demo twice ready))" by blast
  from t d have 5: "readyCalls (run demo twice ready) = readyCalls ready" by blast
  from a 1 b 2 c 3 d 4 5 show ?thesis by (intro conjI)
qed

subsection \<open>Commands before readiness\<close>

text \<open>
  Claim C4. While the engine has not signalled readiness, \<open>sendCommand\<close> with any
  command other than \<open>uci\<close> does nothing: the state is unchanged, so the command
  went to no channel, and nothing is kept for later, for when readiness arrives the only
  effect is the ready callback.
\<close>

theorem send_dropped_before_ready:
  assumes "\<not> isReady (engineMgr s)" and "cmd \<noteq> ''uci''"
  shows "sendCommand ev cmd s = s \<and>
         effects (handleMessage R ''uciok'' (sendCommand ev cmd s)) =
           effects s @ [ConsoleLog ''Engine Ready!'']"
proof -
  have drop: "sendCommand ev cmd s = s"
    using assms by (simp add: sendCommand_def)
  have "effects (handleMessage R ''uciok'' s) = effects s @ [ConsoleLog ''Engine Ready!'']"
    using assms(1)
    by (simp add: handleMessage_def startsWith_def onReadyCallback_def statusCallback_def emit_def)
  with drop show ?thesis by simp
qed

theorem send_dropped_before_ready_witness:
  "\<not> isReady (engineMgr idle) \<and> ''stop'' \<noteq> ''uci'' \<and> sendCommand page ''stop'' idle = idle \<and>
   effects (handleMessage demo ''uciok'' (sendCommand page ''stop'' idle)) =
     [PostMessage ''uci'', ConsoleLog ''Engine Ready!'']"
proof -
  have h1: "\<not> isReady (engineMgr idle)" by (simp add: idle_eq)
  have h2: "''stop'' \<noteq> ''uci''" by simp
  have e: "effects idle = [PostMessage ''uci'']" by (simp add: idle_eq)
  from send_dropped_before_ready [OF h1 h2, of page demo] h1 h2 e show ?thesis
    by auto
qed

subsection \<open>Decoding the best move\<close>

text \<open>
  Claim C5. On a line \<open>bestmove\<close>, a space, a token without spaces, and then nothing or
  a space and more, \<open>handleMessage\<close> hands that token to \<open>handleAiMove\<close>. While
  \<open>isThinking\<close> is true, a token of four characters is applied through the Rules
  Engine as the move from its first two characters to its next two with an empty
  promotion, a token of five characters with its fifth character as the promotion, and
  the token \<open>(none)\<close> leaves the game as it is. In every case \<open>isThinking\<close> is false
  afterwards.
\<close>

theorem bestmove_decoded:
  assumes "isThinking s" and "CHR '' '' \<notin> set tok" and "rest = [] \<or> hd rest = CHR '' ''"
  shows "handleMessage R (''bestmove '' @ tok @ rest) s = handleAiMove R (Some tok) s \<and>
         \<not> isThinking (handleAiMove R (Some tok) s) \<and>
         (tok = ''(none)'' \<longrightarrow> game (handleAiMove R (Some tok) s) = game s) \<and>
         (\<forall>a b c d. tok = [a, b, c, d] \<longrightarrow>
            game (handleAiMove R (Some tok) s) =
              applyMove R (MoveObj (Some [a, b]) [c, d] []) (game s)) \<and>
         (\<forall>a b c d e. tok = [a, b, c, d, e] \<longrightarrow>
            game (handleAiMove R (Some tok) s) =
              applyMove R (MoveObj (Some [a, b]) [c, d] [e]) (game s))"
proof -
  let ?line = "''bestmove '' @ tok @ rest"
  have line: "?line = ''bestmove'' @ CHR '' '' # tok @ rest" by simp
  have "CHR '' '' \<notin> set ''bestmove''" by simp
  then have tok: "index (split CHR '' '' ?line) 1 = Some tok"
    unfolding line using assms(2,3) by (rule split_second)
  have sw: "startsWith ?line ''bestmove''" by (simp add: startsWith_def)
  then have "?line \<noteq> ''uciok''" by (rule bestmove_not_uciok)
  with sw tok have 1: "handleMessage R ?line s = handleAiMove R (Some tok) s"
    by (simp add: handleMessage_def del: append.simps)
  have 2: "\<not> isThinking (handleAiMove R (Some tok) s)"
    by (simp add: handleAiMove_def)
  have 3: "tok = ''(none)'' \<longrightarrow> game (handleAiMove R (Some tok) s) = game s"
    by (simp add: handleAiMove_def)
  have 4: "\<forall>a b c d. tok = [a, b, c, d] \<longrightarrow>
            game (handleAiMove R (Some tok) s) =
              applyMove R (MoveObj (Some [a, b]) [c, d] []) (game s)"
    using assms(1) by (simp add: handleAiMove_def substring_def)
  have 5: "\<forall>a b c d e. tok = [a, b, c, d, e] \<longrightarrow>
            game (handleAiMove R (Some tok) s) =
              applyMove R (MoveObj (Some [a, b]) [c, d] [e]) (game s)"
    using assms(1) by (simp add: handleAiMove_def substring_def)
  from 1 2 3 4 5 show ?thesis by blast
qed

theorem bestmove_decoded_witness:
  "isThinking searching \<and> CHR '' '' \<notin> set ''e7e5'' \<and> hd '' ponder g1f3'' = CHR '' '' \<and>
   handleMessage demo (''bestmove '' @ ''e7e5'' @ '' ponder g1f3'') searching =
     handleAiMove demo (Some ''e7e5'') searching \<and>
   \<not> isThinking (handleAiMove demo (Some ''e7e5'') searching) \<and>
   game (handleAiMove demo (Some ''e7e5'') searching) =
     applyMove demo (MoveObj (Some ''e7'') ''e5'' []) (game searching) \<and>
   applyMove demo (MoveObj (Some ''e7'') ''e5'' []) (game searching) = [''e2e4'', ''e7e5'']"
proof -
  have t: "isThinking searching" by (simp add: searching_eq)
  have n: "CHR '' '' \<notin> set ''e7e5''" by simp
  have r: "'' ponder g1f3'' = [] \<or> hd '' ponder g1f3'' = CHR '' ''" by simp
  have h: "hd '' ponder g1f3'' = CHR '' ''" by simp
  have g: "applyMove demo (MoveObj (Some ''e7'') ''e5'' []) (game searching) = [''e2e4'', ''e7e5'']"
    by (simp add: searching_eq applyMove_def demo_def)
  from bestmove_decoded [OF t n r, of demo] t n h g show ?thesis by blast
qed

subsection \<open>The random fallback\<close>

text \<open>
  Claim C6. When \<open>triggerAi\<close> runs with the game not over and the manager not ready, it
  sets \<open>isThinking\<close>, sends nothing and arms one timer of 1000 ms for
  \<open>makeRandomMove\<close>. When that timer fires, \<open>makeRandomMove\<close> runs: it always ends
  with \<open>isThinking\<close> false; with no legal move the game is unchanged; otherwise, for
  every double \<open>r\<close> that \<open>Math.random()\<close> can return, it plays the move of the
  legal-move list at position \<open>randomIndex r n\<close>, which is inside the list. The choice
  is uniform in \<open>r\<close> as far as one multiplication of doubles allows: position \<open>i\<close> is
  chosen for every \<open>r\<close> with \<open>i \<le> r * n\<close> and \<open>r * n * (1 + 1 / 2 ^ 53) < i + 1\<close>, and
  only for \<open>r\<close> with \<open>i \<le> r * n * (1 + 1 / 2 ^ 53)\<close> and \<open>r * n < i + 1\<close>. So each
  of the \<open>n\<close> moves owns the interval from \<open>i / n\<close> to \<open>(i + 1) / n\<close> of the
  values of \<open>r\<close>, of the same length for all, up to the rounding of the product at its
  two ends. How \<open>Math.random()\<close> spreads its values is left to the browser.
\<close>

theorem random_fallback:
  assumes "\<not> game_over R (game s)" and "\<not> isReady (engineMgr s)"
  shows "isThinking (triggerAi R ev s) \<and> game (triggerAi R ev s) = game s \<and>
         timers (triggerAi R ev s) = timers s @ [(1000, RandomMove)] \<and>
         effects (triggerAi R ev s) =
           effects s @ [ConsoleWarn ''Engine not ready, using pure random fallback''] \<and>
         (\<forall>ev' r. fireTimer R ev' (length (timers s)) r (triggerAi R ev s) =
                    makeRandomMove R r ((triggerAi R ev s)\<lparr>timers := timers s\<rparr>)) \<and>
         (\<forall>r s'. \<not> isThinking (makeRandomMove R r s')) \<and>
         (\<forall>r s'. moves R (game s') = [] \<longrightarrow> game (makeRandomMove R r s') = game s') \<and>
         (\<forall>r s'. isUnitDouble r \<and> moves R (game s') \<noteq> [] \<longrightarrow>
            randomIndex r (length (moves R (game s'))) < length (moves R (game s')) \<and>
            game (makeRandomMove R r s') =
              applyMove R
                (MoveSan (moves R (game s') ! randomIndex r (length (moves R (game s')))))
                (game s')) \<and>
         (\<forall>r n i. isUnitDouble r \<and> 0 < n \<and> n \<le> 2 ^ 53 \<longrightarrow>
            (real i \<le> dyadicValue r * real n \<and>
             dyadicValue r * real n * (1 + 1 / 2 ^ 53) < real (i + 1) \<longrightarrow>
               randomIndex r n = i) \<and>
            (randomIndex r n = i \<longrightarrow>
               real i \<le> dyadicValue r * real n * (1 + 1 / 2 ^ 53) \<and>
               dyadicValue r * real n < real (i + 1)))"
proof -
  note t = triggerAi_not_ready [OF assms, of ev]
  have 1: "isThinking (triggerAi R ev s)" by (simp add: t)
  have 2: "game (triggerAi R ev s) = game s" by simp
  have 3: "timers (triggerAi R ev s) = timers s @ [(1000, RandomMove)]" by (simp add: t)
  have 4: "effects (triggerAi R ev s) =
           effects s @ [ConsoleWarn ''Engine not ready, using pure random fallback'']"
    by (simp add: t)
  have 5: "\<forall>ev' r. fireTimer R ev' (length (timers s)) r (triggerAi R ev s) =
                    makeRandomMove R r ((triggerAi R ev s)\<lparr>timers := timers s\<rparr>)"
    by (simp add: t fireTimer_def clearTimer_def)
  have 6: "\<forall>r s'. \<not> isThinking (makeRandomMove R r s')" by simp
  have 7: "\<forall>r s'. moves R (game s') = [] \<longrightarrow> game (makeRandomMove R r s') = game s'"
    by (simp add: makeRandomMove_no_moves)
  have 8: "\<forall>r s'. isUnitDouble r \<and> moves R (game s') \<noteq> [] \<longrightarrow>
            randomIndex r (length (moves R (game s'))) < length (moves R (game s')) \<and>
            game (makeRandomMove R r s') =
              applyMove R
                (MoveSan (moves R (game s') ! randomIndex r (length (moves R (game s')))))
                (game s')"
    by (simp add: makeRandomMove_game randomIndex_less)
  have 9: "\<forall>r n i. isUnitDouble r \<and> 0 < n \<and> n \<le> 2 ^ 53 \<longrightarrow>
            (real i \<le> dyadicValue r * real n \<and>
             dyadicValue r * real n * (1 + 1 / 2 ^ 53) < real (i + 1) \<longrightarrow>
               randomIndex r n = i) \<and>
            (randomIndex r n = i \<longrightarrow>
               real i \<le> dyadicValue r * real n * (1 + 1 / 2 ^ 53) \<and>
               dyadicValue r * real n < real (i + 1))"
    using randomIndex_interval by blast
  from 1 2 3 4 5 6 7 8 9 show ?thesis by (intro conjI)
qed

theorem random_fallback_witness:
  "\<not> game_over wide (game moved) \<and> \<not> isReady (engineMgr moved) \<and>
   isThinking (triggerAi wide page moved) \<and>
   timers (triggerAi wide page moved) = timers moved @ [(1000, RandomMove)] \<and>
   fireTimer wide page (length (timers moved)) third (triggerAi wide page moved) =
     makeRandomMove wide third ((triggerAi wide page moved)\<lparr>timers := timers moved\<rparr>) \<and>
   game (fireTimer wide page (length (timers moved)) third (triggerAi wide page moved)) =
     [''e2e4'', ''d6''] \<and>
   length (moves wide (game waiting)) = 11 \<and>
   isUnitDouble third \<and> randomIndex third 11 = 3 \<and>
   game (makeRandomMove wide third waiting) = [''e2e4'', ''d6''] \<and>
   \<not> isThinking (makeRandomMove wide third waiting) \<and>
   isUnitDouble half \<and> randomIndex half 11 = 5 \<and>
   game (makeRandomMove wide half waiting) = [''e2e4'', ''f6''] \<and>
   real 5 \<le> dyadicValue half * real 11 \<and> dyadicValue half * real 11 < real (5 + 1)"
proof -
  have g: "\<not> game_over wide (game moved)" by (simp add: moved_def wide_def demo_def)
  have n: "\<not> isReady (engineMgr moved)" by (simp add: moved_def idle_eq)
  have m: "moves wide (game waiting) = replies" by (simp add: waiting_eq wide_def demo_def)
  have l: "length (moves wide (game waiting)) = 11" by (simp add: m replies_def)
  have lr: "length replies = 11" by (simp add: replies_def)
  have ne: "moves wide (game waiting) \<noteq> []" by (simp add: m replies_def)
  have ut: "isUnitDouble third" by (simp add: third_def isUnitDouble_def)
  have uh: "isUnitDouble half" by (simp add: half_def isUnitDouble_def)
  have at: "applyMove wide (MoveSan (replies ! 3)) (game waiting) = [''e2e4'', ''d6'']"
    by (simp add: waiting_eq wide_def demo_def applyMove_def replies_def)
  have ah: "applyMove wide (MoveSan (replies ! 5)) (game waiting) = [''e2e4'', ''f6'']"
    by (simp add: waiting_eq wide_def demo_def applyMove_def replies_def)
  note f = random_fallback [OF g n, of page]
  from f have 1: "isThinking (triggerAi wide page moved)" by blast
  from f have 3: "timers (triggerAi wide page moved) = timers moved @ [(1000, RandomMove)]"
    by blast
  from f have 5: "fireTimer wide page (length (timers moved)) third (triggerAi wide page moved) =
     makeRandomMove wide third ((triggerAi wide page moved)\<lparr>timers := timers moved\<rparr>)"
    by blast
  from f have 6: "\<not> isThinking (makeRandomMove wide third waiting)" by blast
  from f have v: "\<forall>r s'. isUnitDouble r \<and> moves wide (game s') \<noteq> [] \<longrightarrow>
      randomIndex r (length (moves wide (game s'))) < length (moves wide (game s')) \<and>
      game (makeRandomMove wide r s') =
        applyMove wide
          (MoveSan (moves wide (game s') ! randomIndex r (length (moves wide (game s')))))
          (game s')"
    by blast
  from v [rule_format, of third waiting] ut ne
  have "game (makeRandomMove wide third waiting) =
      applyMove wide (MoveSan (replies ! randomIndex third 11)) (game waiting)"
    by (simp add: m lr)
  with at have 8: "game (makeRandomMove wide third waiting) = [''e2e4'', ''d6'']"
    by (simp add: third_index)
  from v [rule_format, of half waiting] uh ne
  have "game (makeRandomMove wide half waiting) =
      applyMove wide (MoveSan (replies ! randomIndex half 11)) (game waiting)"
    by (simp add: m lr)
  with ah have 9: "game (makeRandomMove wide half waiting) = [''e2e4'', ''f6'']"
    by (simp add: half_index)
  from f have u: "\<forall>r n i. isUnitDouble r \<and> 0 < n \<and> n \<le> 2 ^ 53 \<longrightarrow>
            (real i \<le> dyadicValue r * real n \<and>
             dyadicValue r * real n * (1 + 1 / 2 ^ 53) < real (i + 1) \<longrightarrow>
               randomIndex r n = i) \<and>
            (randomIndex r n = i \<longrightarrow>
               real i \<le> dyadicValue r * real n * (1 + 1 / 2 ^ 53) \<and>
               dyadicValue r * real n < real (i + 1))"
    by blast
  have b: "(11::nat) \<le> 2 ^ 53" by simp
  from u [rule_format, of half 11 5] uh b half_index
  have 10: "dyadicValue half * real 11 < real (5 + 1)" by simp
  have 11: "real 5 \<le> dyadicValue half * real 11" by (simp add: dyadicValue_def half_def)
  have gm: "game ((triggerAi wide page moved)\<lparr>timers := timers moved\<rparr>) = game waiting"
    by (simp add: moved_def waiting_eq)
  from v [rule_format, of third "(triggerAi wide page moved)\<lparr>timers := timers moved\<rparr>"] ut ne
  have "game (makeRandomMove wide third ((triggerAi wide page moved)\<lparr>timers := timers moved\<rparr>)) =
      applyMove wide (MoveSan (replies ! randomIndex third 11)) (game waiting)"
    by (simp add: gm m lr)
  with at 5 have 12: "game (fireTimer wide page (length (timers moved)) third
      (triggerAi wide page moved)) = [''e2e4'', ''d6'']"
    by (simp add: third_index)
  from g n 1 3 5 12 l ut third_index 8 6 uh half_index 9 11 10 show ?thesis by (intro conjI)
qed

subsection \<open>The start-up race\<close>




subsection \<open>Pointer events while thinking\<close>




subsection \<open>Undo\<close>

text \<open>
  Claim C9. When not thinking, \<open>undoMove\<close> applies the Rules Engine's \<open>undo\<close> twice
  to the game. So, for a Rules Engine whose \<open>undo\<close> takes back the last move, a game
  reached by two moves in a row (the player's, then the engine's) is taken back to where
  it was before both.
\<close>

theorem undo_two_half_moves:
  assumes "\<not> isThinking s"
  shows "game (undoMove R s) = undo R (undo R (game s)) \<and>
         (\<forall>g g1 m1 m2.
            (\<forall>m h h'. move R m h = Some h' \<longrightarrow> undo R h' = h) \<longrightarrow>
            move R m1 g = Some g1 \<longrightarrow> move R m2 g1 = Some (game s) \<longrightarrow>
            game (undoMove R s) = g)"
proof
  show two: "game (undoMove R s) = undo R (undo R (game s))"
    using assms by (simp add: undoMove_def)
  show "\<forall>g g1 m1 m2.
          (\<forall>m h h'. move R m h = Some h' \<longrightarrow> undo R h' = h) \<longrightarrow>
          move R m1 g = Some g1 \<longrightarrow> move R m2 g1 = Some (game s) \<longrightarrow>
          game (undoMove R s) = g"
  proof (intro allI impI)
    fix g g1 m1 m2
    assume inv: "\<forall>m h h'. move R m h = Some h' \<longrightarrow> undo R h' = h"
      and m1: "move R m1 g = Some g1" and m2: "move R m2 g1 = Some (game s)"
    from inv m2 have "undo R (game s) = g1" by blast
    moreover from inv m1 have "undo R g1 = g" by blast
    ultimately show "game (undoMove R s) = g" using two by simp
  qed
qed

theorem undo_two_half_moves_witness:
  "\<not> isThinking replied \<and> game replied = [''e2e4'', ''e7e5''] \<and>
   game (undoMove demo replied) = undo demo (undo demo (game replied)) \<and>
   move demo (MoveObj (Some ''e2'') ''e4'' ''q'') [] = Some [''e2e4''] \<and>
   move demo (MoveObj (Some ''e7'') ''e5'' []) [''e2e4''] = Some (game replied) \<and>
   game (undoMove demo replied) = []"
proof -
  have h: "\<not> isThinking replied" by (simp add: replied_eq)
  have g: "game replied = [''e2e4'', ''e7e5'']" by (simp add: replied_eq)
  have m1: "move demo (MoveObj (Some ''e2'') ''e4'' ''q'') [] = Some [''e2e4'']"
    by (simp add: demo_def)
  have m2: "move demo (MoveObj (Some ''e7'') ''e5'' []) [''e2e4''] = Some (game replied)"
    by (simp add: demo_def g)
  have inv: "\<forall>m h h'. move demo m h = Some h' \<longrightarrow> undo demo h' = h"
    using demo_undo by blast
  from undo_two_half_moves [OF h, of demo] inv m1 m2 h g show ?thesis by blast
qed

subsection \<open>Promotion\<close>

text \<open>
  Claim C10. \<open>tryMove\<close> submits the candidate to the Rules Engine with the promotion
  fixed to \<open>q\<close>. A pointer-down with a square selected and no drag going on, while not
  thinking, submits the move from the selected square; a pointer-up on a square other than
  \<open>dragStartSquare\<close> submits the move from \<open>dragStartSquare\<close>; in both cases the game
  afterwards is what the Rules Engine makes of that move with promotion \<open>q\<close>. In every
  other case the game is unchanged. Neither handler looks at what the Rules Engine would
  answer to another promotion: replacing \<open>move\<close> by any function that agrees with it
  on the moves with promotion \<open>q\<close> changes nothing in what the handlers do. So a pawn
  that reaches the last rank becomes a queen, and no handler asks for a choice.
\<close>

theorem human_promotion_queen:
  "tryMove R ev from to s =
     (case move R (MoveObj from to ''q'') (game s) of
        Some g' \<Rightarrow> (triggerAi R ev (updateStatus R (s\<lparr>game := g'\<rparr>)), True)
      | None \<Rightarrow> (s, False)) \<and>
   (\<not> isThinking s \<and> truthy (selectedSquare s) \<and> \<not> isDragging s \<longrightarrow>
      game (handlePointerDown R ev square s) =
        applyMove R (MoveObj (selectedSquare s) square ''q'') (game s)) \<and>
   (isThinking s \<or> \<not> truthy (selectedSquare s) \<or> isDragging s \<longrightarrow>
      game (handlePointerDown R ev square s) = game s) \<and>
   (Some t \<noteq> dragStartSquare s \<longrightarrow>
      game (handlePointerUp R ev (Some t) s) =
        applyMove R (MoveObj (dragStartSquare s) t ''q'') (game s)) \<and>
   (Some t = dragStartSquare s \<longrightarrow> game (handlePointerUp R ev (Some t) s) = game s) \<and>
   game (handlePointerUp R ev None s) = game s \<and>
   ((\<forall>f t g. mv (MoveObj f t ''q'') g = move R (MoveObj f t ''q'') g) \<longrightarrow>
      handlePointerDown (R\<lparr>move := mv\<rparr>) ev square s = handlePointerDown R ev square s \<and>
      handlePointerUp (R\<lparr>move := mv\<rparr>) ev target s = handlePointerUp R ev target s)"
proof (intro conjI impI)
  show "tryMove R ev from to s =
     (case move R (MoveObj from to ''q'') (game s) of
        Some g' \<Rightarrow> (triggerAi R ev (updateStatus R (s\<lparr>game := g'\<rparr>)), True)
      | None \<Rightarrow> (s, False))"
    by (simp add: tryMove_def)
  show "game (handlePointerUp R ev None s) = game s"
    by (simp add: handlePointerUp_outside)
next
  assume "\<not> isThinking s \<and> truthy (selectedSquare s) \<and> \<not> isDragging s"
  then show "game (handlePointerDown R ev square s) =
        applyMove R (MoveObj (selectedSquare s) square ''q'') (game s)"
    by (simp add: handlePointerDown_click)
next
  assume "isThinking s \<or> \<not> truthy (selectedSquare s) \<or> isDragging s"
  then show "game (handlePointerDown R ev square s) = game s"
    by (rule handlePointerDown_select)
next
  assume "Some t \<noteq> dragStartSquare s"
  then show "game (handlePointerUp R ev (Some t) s) =
        applyMove R (MoveObj (dragStartSquare s) t ''q'') (game s)"
    by (rule handlePointerUp_drop)
next
  assume "Some t = dragStartSquare s"
  then have "handlePointerUp R ev (Some t) s = s\<lparr>isDragging := False\<rparr>"
    by (rule handlePointerUp_same)
  then show "game (handlePointerUp R ev (Some t) s) = game s" by simp
next
  assume q: "\<forall>f t g. mv (MoveObj f t ''q'') g = move R (MoveObj f t ''q'') g"
  then have t: "tryMove (R\<lparr>move := mv\<rparr>) ev f u s' = tryMove R ev f u s'" for f u s'
    by (rule tryMove_only_queen)
  show "handlePointerDown (R\<lparr>move := mv\<rparr>) ev square s = handlePointerDown R ev square s"
    by (simp add: handlePointerDown_def t selectSquare_only_queen split: prod.split)
  show "handlePointerUp (R\<lparr>move := mv\<rparr>) ev target s = handlePointerUp R ev target s"
    by (simp add: handlePointerUp_def t Let_def split: option.split)
qed

theorem human_promotion_queen_witness:
  "move promo (MoveObj (Some ''e7'') ''e8'' ''r'') (game lifted) = Some [''e7e8r''] \<and>
   Some ''e8'' \<noteq> dragStartSquare lifted \<and>
   game (handlePointerUp promo page (Some ''e8'') lifted) = [''e7e8q''] \<and>
   \<not> isThinking chosen \<and> truthy (selectedSquare chosen) \<and> \<not> isDragging chosen \<and>
   game (handlePointerDown promo page ''e8'' chosen) = [''e7e8q''] \<and>
   isDragging lifted \<and> game (handlePointerDown promo page ''e8'' lifted) = game lifted \<and>
   Some ''e7'' = dragStartSquare lifted \<and>
   game (handlePointerUp promo page (Some ''e7'') lifted) = game lifted \<and>
   queenOnly (MoveObj (Some ''e7'') ''e8'' ''r'') (game lifted) = None \<and>
   handlePointerUp (promo\<lparr>move := queenOnly\<rparr>) page (Some ''e8'') lifted =
     handlePointerUp promo page (Some ''e8'') lifted \<and>
   handlePointerDown (promo\<lparr>move := queenOnly\<rparr>) page ''e8'' chosen =
     handlePointerDown promo page ''e8'' chosen"
proof -
  have r: "move promo (MoveObj (Some ''e7'') ''e8'' ''r'') (game lifted) = Some [''e7e8r'']"
    by (simp add: lifted_eq promo_def)
  have o: "Some ''e8'' \<noteq> dragStartSquare lifted" by (simp add: lifted_eq)
  have d: "Some ''e7'' = dragStartSquare lifted" by (simp add: lifted_eq)
  have c: "\<not> isThinking chosen \<and> truthy (selectedSquare chosen) \<and> \<not> isDragging chosen"
    by (simp add: chosen_eq lifted_eq truthy_def)
  have l: "isDragging lifted" by (simp add: lifted_eq)
  have q1: "applyMove promo (MoveObj (dragStartSquare lifted) ''e8'' ''q'') (game lifted) = [''e7e8q'']"
    by (simp add: lifted_eq promo_def applyMove_def)
  have q2: "applyMove promo (MoveObj (selectedSquare chosen) ''e8'' ''q'') (game chosen) = [''e7e8q'']"
    by (simp add: chosen_eq lifted_eq promo_def applyMove_def)
  have n: "queenOnly (MoveObj (Some ''e7'') ''e8'' ''r'') (game lifted) = None"
    by (simp add: queenOnly_def)
  have qo: "\<forall>f t g. queenOnly (MoveObj f t ''q'') g = move promo (MoveObj f t ''q'') g"
    by (simp add: queenOnly_def)
  note a = human_promotion_queen
    [of promo page None "''e8''" lifted "''e8''" "''e8''" queenOnly "Some ''e8''"]
  note b = human_promotion_queen
    [of promo page None "''e8''" chosen "''e8''" "''e8''" queenOnly "Some ''e8''"]
  note e = human_promotion_queen
    [of promo page None "''e8''" lifted "''e8''" "''e7''" queenOnly "Some ''e8''"]
  from a o q1 have 1: "game (handlePointerUp promo page (Some ''e8'') lifted) = [''e7e8q'']"
    by simp
  from b c q2 have 2: "game (handlePointerDown promo page ''e8'' chosen) = [''e7e8q'']"
    by simp
  from a l have 3: "game (handlePointerDown promo page ''e8'' lifted) = game lifted" by blast
  from e d have 4: "game (handlePointerUp promo page (Some ''e7'') lifted) = game lifted"
    by blast
  from a qo have 5: "handlePointerUp (promo\<lparr>move := queenOnly\<rparr>) page (Some ''e8'') lifted =
     handlePointerUp promo page (Some ''e8'') lifted" by blast
  from b qo have 6: "handlePointerDown (promo\<lparr>move := queenOnly\<rparr>) page ''e8'' chosen =
     handlePointerDown promo page ''e8'' chosen" by blast
  from r o 1 c 2 l 3 d 4 n 5 6 show ?thesis by (intro conjI) simp_all
qed

end
